theory Spec2Isabelle
  imports Main
begin

section \<open>Data model\<close>

text \<open>
  The linked blob store of the registry's storage package, embedded function by function.
  A \<open>digest.Digest\<close> and a storage path are Go strings. A \<open>v1.Descriptor\<close> keeps the
  three fields the store reads and writes. A \<open>reference.Canonical\<close> is read through its
  \<open>Name()\<close> and \<open>Digest()\<close> methods only.
\<close>

type_synonym digest = string
type_synonym path = string
type_synonym time = int
type_synonym fileWriter = nat

record Descriptor =
  MediaType :: string
  Digest :: digest
  Size :: int

record Canonical =
  ref_Name :: string
  ref_Digest :: digest

text \<open>
  Go's \<open>error\<close> values. The sentinels of package distribution are compared with \<open>==\<close>,
  the driver's \<open>PathNotFoundError\<close> is found by a type switch, \<open>ErrBlobMounted\<close> is a
  struct carrying the source reference and the descriptor, and every other error value
  (I/O failures, parse failures, path-resolution failures) is an \<open>OtherError\<close>.
\<close>

datatype error =
    ErrBlobUnknown
  | ErrBlobUploadUnknown
  | ErrUnsupported
  | ErrBlobMounted Canonical Descriptor
  | PathNotFoundError path
  | OtherError string

record FileInfo =
  Path :: path
  IsDir :: bool

datatype pathSpec =
    uploadDataPathSpec string string
  | uploadStartedAtPathSpec string string
  | layerLinkPathSpec string digest
  | manifestRevisionLinkPathSpec string digest
  | layersPathSpec string
  | manifestRevisionsPathSpec string

record CreateOptions =
  ShouldMount :: bool
  From :: "Canonical option"
  Stat_opt :: "Descriptor option"

record ResponseWriter =
  Header :: "string \<rightharpoonup> string"
  Body :: string

record blobWriter =
  bw_id :: string
  bw_startedAt :: time
  bw_fileWriter :: fileWriter
  bw_path :: path
  bw_resumableDigestEnabled :: bool

section \<open>Collaborators and the record of their calls\<close>

text \<open>
  Every call the store makes on a collaborator (the storage driver, the global blob
  store, the global statter, the registry, the uuid source, the clock, the logger, the
  ingestor callback) is recorded in order, so that "calls X first" and "does not read"
  are statements about the list of calls.
\<close>

datatype call =
    Call_Stat digest
  | Call_Clear digest
  | Call_SetDescriptor digest Descriptor
  | Call_readlink path
  | Call_link path digest
  | Call_statter_Stat digest
  | Call_blobStore_Get digest
  | Call_blobStore_Open digest
  | Call_blobStore_Put string string
  | Call_blobServer_ServeBlob digest
  | Call_GetContent path
  | Call_PutContent path string
  | Call_Delete path
  | Call_Writer path bool
  | Call_Walk path
  | Call_Repository Canonical
  | Call_source_Stat Canonical digest
  | Call_uuid_NewString
  | Call_time_Now
  | Call_ingestor digest
  | Call_Warnf digest digest
  | Call_Debug string
  | Call_Errorf string

record 's world =
  backend :: 's
  calls :: "call list"

definition invoke :: "call \<Rightarrow> ('s \<Rightarrow> 'a \<times> 's) \<Rightarrow> 's world \<Rightarrow> 'a \<times> 's world" where
  "invoke c f w =
     (case f (backend w) of (r, s') \<Rightarrow> (r, \<lparr>backend = s', calls = calls w @ [c]\<rparr>))"

definition logcall :: "call \<Rightarrow> 's world \<Rightarrow> 's world" where
  "logcall c w = w\<lparr>calls := calls w @ [c]\<rparr>"

text \<open>
  The embedded \<open>*blobStore\<close> (global, digest-keyed) with its driver and statter. Its
  methods are not part of the embedded sources: they are parameters, each a function of
  the backend state that returns a result and the next state.
\<close>

record 's blobStore =
  bs_Get :: "digest \<Rightarrow> 's \<Rightarrow> (error + string) \<times> 's"
  bs_Open :: "digest \<Rightarrow> 's \<Rightarrow> (error + string) \<times> 's"
  bs_Put :: "string \<Rightarrow> string \<Rightarrow> 's \<Rightarrow> (error + Descriptor) \<times> 's"
  bs_readlink :: "path \<Rightarrow> 's \<Rightarrow> (error + digest) \<times> 's"
  bs_link :: "path \<Rightarrow> digest \<Rightarrow> 's \<Rightarrow> error option \<times> 's"
  statter_Stat :: "digest \<Rightarrow> 's \<Rightarrow> (error + Descriptor) \<times> 's"
  driver_GetContent :: "path \<Rightarrow> 's \<Rightarrow> (error + string) \<times> 's"
  driver_PutContent :: "path \<Rightarrow> string \<Rightarrow> 's \<Rightarrow> error option \<times> 's"
  driver_Delete :: "path \<Rightarrow> 's \<Rightarrow> error option \<times> 's"
  driver_Writer :: "path \<Rightarrow> bool \<Rightarrow> 's \<Rightarrow> (error + fileWriter) \<times> 's"
  driver_List :: "path \<Rightarrow> 's \<Rightarrow> (error + FileInfo list) \<times> 's"

text \<open>
  The functions of other packages and of Go's library that the store calls: \<open>pathFor\<close>,
  \<open>uuid.NewString\<close>, \<open>time.Now\<close>, formatting and parsing a time as RFC3339, and
  \<open>digest.FromBytes\<close>.
\<close>

record 's env =
  pathFor :: "pathSpec \<Rightarrow> error + path"
  uuid_NewString :: "'s \<Rightarrow> string \<times> 's"
  time_Now :: "'s \<Rightarrow> time \<times> 's"
  Format_RFC3339 :: "time \<Rightarrow> string"
  Parse_RFC3339 :: "string \<Rightarrow> error + time"
  digest_FromBytes :: "string \<Rightarrow> digest"

text \<open>
  The interface \<open>distribution.BlobDescriptorService\<close>, a collaborator like the others:
  whatever implements it, the store sees a result and the next backend state.
\<close>

record 's BlobDescriptorService =
  svc_Stat :: "digest \<Rightarrow> 's \<Rightarrow> (error + Descriptor) \<times> 's"
  svc_Clear :: "digest \<Rightarrow> 's \<Rightarrow> error option \<times> 's"
  svc_SetDescriptor :: "digest \<Rightarrow> Descriptor \<Rightarrow> 's \<Rightarrow> error option \<times> 's"

record 's linkedBlobStatter =
  st_blobStore :: "'s blobStore"
  st_repository_Name :: string
  st_linkPath :: "string \<Rightarrow> digest \<Rightarrow> error + path"

record 's linkedBlobStore =
  blobStore :: "'s blobStore"
  registry_Repository :: "Canonical \<Rightarrow> 's \<Rightarrow> error option \<times> 's"
  source_Stat :: "Canonical \<Rightarrow> digest \<Rightarrow> 's \<Rightarrow> (error + Descriptor) \<times> 's"
  blobServer_ServeBlob ::
    "ResponseWriter \<Rightarrow> string \<Rightarrow> digest \<Rightarrow> 's \<Rightarrow> (error option \<times> ResponseWriter) \<times> 's"
  blobAccessController :: "'s BlobDescriptorService"
  repository_Name :: string
  deleteEnabled :: bool
  resumableDigestEnabled :: bool
  linkPath :: "string \<Rightarrow> digest \<Rightarrow> error + path"
  linkDirectoryPathSpec :: pathSpec

section \<open>linkedBlobStatter\<close>

definition linkedBlobStatter_Stat ::
  "'s linkedBlobStatter \<Rightarrow> digest \<Rightarrow> 's world \<Rightarrow> (error + Descriptor) \<times> 's world" where
  "linkedBlobStatter_Stat lbs dgst w =
     (case st_linkPath lbs (st_repository_Name lbs) dgst of
        Inl err \<Rightarrow> (Inl err, w)
      | Inr blobLinkPath \<Rightarrow>
          (case invoke (Call_readlink blobLinkPath) (bs_readlink (st_blobStore lbs) blobLinkPath) w of
             (Inl err, w1) \<Rightarrow>
               (case err of
                  PathNotFoundError p \<Rightarrow> (Inl ErrBlobUnknown, w1)
                | _ \<Rightarrow> (Inl err, w1))
           | (Inr target, w1) \<Rightarrow>
               (let w2 = (if target \<noteq> dgst then logcall (Call_Warnf dgst target) w1 else w1)
                in invoke (Call_statter_Stat target) (statter_Stat (st_blobStore lbs) target) w2)))"

definition linkedBlobStatter_Clear ::
  "'s linkedBlobStatter \<Rightarrow> digest \<Rightarrow> 's world \<Rightarrow> error option \<times> 's world" where
  "linkedBlobStatter_Clear lbs dgst w =
     (case st_linkPath lbs (st_repository_Name lbs) dgst of
        Inl err \<Rightarrow> (Some err, w)
      | Inr blobLinkPath \<Rightarrow>
          invoke (Call_Delete blobLinkPath) (driver_Delete (st_blobStore lbs) blobLinkPath) w)"

definition linkedBlobStatter_SetDescriptor ::
  "'s linkedBlobStatter \<Rightarrow> digest \<Rightarrow> Descriptor \<Rightarrow> 's world \<Rightarrow> error option \<times> 's world" where
  "linkedBlobStatter_SetDescriptor lbs dgst desc w = (None, w)"

text \<open>
  \<open>var _ distribution.BlobDescriptorService = &linkedBlobStatter{}\<close>: the statter behind
  the interface. A caller of the interface sees the result and the backend, not the calls
  the statter made.
\<close>

definition run :: "('s world \<Rightarrow> 'a \<times> 's world) \<Rightarrow> 's \<Rightarrow> 'a \<times> 's" where
  "run f s = (case f \<lparr>backend = s, calls = []\<rparr> of (r, w) \<Rightarrow> (r, backend w))"

definition linkedBlobStatter_service :: "'s linkedBlobStatter \<Rightarrow> 's BlobDescriptorService" where
  "linkedBlobStatter_service lbs =
     \<lparr>svc_Stat = (\<lambda>dgst. run (linkedBlobStatter_Stat lbs dgst)),
      svc_Clear = (\<lambda>dgst. run (linkedBlobStatter_Clear lbs dgst)),
      svc_SetDescriptor = (\<lambda>dgst desc. run (linkedBlobStatter_SetDescriptor lbs dgst desc))\<rparr>"

section \<open>linkedBlobStore: reads\<close>

definition Stat :: "'s linkedBlobStore \<Rightarrow> digest \<Rightarrow> 's world \<Rightarrow> (error + Descriptor) \<times> 's world" where
  "Stat lbs dgst w = invoke (Call_Stat dgst) (svc_Stat (blobAccessController lbs) dgst) w"

definition Get :: "'s linkedBlobStore \<Rightarrow> digest \<Rightarrow> 's world \<Rightarrow> (error + string) \<times> 's world" where
  "Get lbs dgst w =
     (case Stat lbs dgst w of
        (Inl err, w1) \<Rightarrow> (Inl err, w1)
      | (Inr canonical, w1) \<Rightarrow>
          invoke (Call_blobStore_Get (Digest canonical))
            (bs_Get (blobStore lbs) (Digest canonical)) w1)"

definition Open :: "'s linkedBlobStore \<Rightarrow> digest \<Rightarrow> 's world \<Rightarrow> (error + string) \<times> 's world" where
  "Open lbs dgst w =
     (case Stat lbs dgst w of
        (Inl err, w1) \<Rightarrow> (Inl err, w1)
      | (Inr canonical, w1) \<Rightarrow>
          invoke (Call_blobStore_Open (Digest canonical))
            (bs_Open (blobStore lbs) (Digest canonical)) w1)"

definition ServeBlob ::
  "'s linkedBlobStore \<Rightarrow> ResponseWriter \<Rightarrow> string \<Rightarrow> digest \<Rightarrow> 's world
    \<Rightarrow> (error option \<times> ResponseWriter) \<times> 's world" where
  "ServeBlob lbs rw r dgst w =
     (case Stat lbs dgst w of
        (Inl err, w1) \<Rightarrow> ((Some err, rw), w1)
      | (Inr canonical, w1) \<Rightarrow>
          (let rw1 = (if MediaType canonical \<noteq> ''''
                      then rw\<lparr>Header := (Header rw)(''Content-Type'' \<mapsto> MediaType canonical)\<rparr>
                      else rw)
           in invoke (Call_blobServer_ServeBlob (Digest canonical))
                (blobServer_ServeBlob lbs rw1 r (Digest canonical)) w1))"

section \<open>linkedBlobStore: links, mount, upload sessions\<close>

text \<open>
  \<open>linkBlob\<close>: the loop over \<open>dgsts\<close> with the set \<open>seenDigests\<close>; an error of
  \<open>linkPath\<close> or of \<open>link\<close> returns at once.
\<close>

fun linkBlob_loop ::
  "'s linkedBlobStore \<Rightarrow> Descriptor \<Rightarrow> digest set \<Rightarrow> digest list \<Rightarrow> 's world
    \<Rightarrow> error option \<times> 's world" where
  "linkBlob_loop lbs canonical seenDigests [] w = (None, w)"
| "linkBlob_loop lbs canonical seenDigests (dgst # rest) w =
     (if dgst \<in> seenDigests then linkBlob_loop lbs canonical seenDigests rest w
      else
        (case linkPath lbs (repository_Name lbs) dgst of
           Inl err \<Rightarrow> (Some err, w)
         | Inr blobLinkPath \<Rightarrow>
             (case invoke (Call_link blobLinkPath (Digest canonical))
                     (bs_link (blobStore lbs) blobLinkPath (Digest canonical)) w of
                (Some err, w1) \<Rightarrow> (Some err, w1)
              | (None, w1) \<Rightarrow> linkBlob_loop lbs canonical (insert dgst seenDigests) rest w1)))"

definition linkBlob ::
  "'s linkedBlobStore \<Rightarrow> Descriptor \<Rightarrow> digest list \<Rightarrow> 's world \<Rightarrow> error option \<times> 's world" where
  "linkBlob lbs canonical aliases w =
     linkBlob_loop lbs canonical {} (Digest canonical # aliases) w"

definition mount ::
  "'s linkedBlobStore \<Rightarrow> Canonical \<Rightarrow> digest \<Rightarrow> Descriptor option \<Rightarrow> 's world
    \<Rightarrow> (Descriptor \<times> error option) \<times> 's world" where
  "mount lbs sourceRepo dgst sourceStat w =
     (let zero = \<lparr>MediaType = '''', Digest = '''', Size = 0\<rparr>;
          finish = (\<lambda>stat w1.
            (let desc = \<lparr>MediaType = ''application/octet-stream'', Digest = dgst, Size = Size stat\<rparr>
             in (case linkBlob lbs desc [] w1 of (err, w2) \<Rightarrow> ((desc, err), w2))))
      in (case sourceStat of
            None \<Rightarrow>
              (case invoke (Call_Repository sourceRepo) (registry_Repository lbs sourceRepo) w of
                 (Some err, w1) \<Rightarrow> ((zero, Some err), w1)
               | (None, w1) \<Rightarrow>
                   (case invoke (Call_source_Stat sourceRepo dgst) (source_Stat lbs sourceRepo dgst) w1 of
                      (Inl err, w2) \<Rightarrow> ((zero, Some err), w2)
                    | (Inr stat, w2) \<Rightarrow> finish stat w2))
          | Some stat \<Rightarrow> finish stat w))"

definition newBlobUpload ::
  "'s linkedBlobStore \<Rightarrow> string \<Rightarrow> path \<Rightarrow> time \<Rightarrow> bool \<Rightarrow> 's world
    \<Rightarrow> (error + blobWriter) \<times> 's world" where
  "newBlobUpload lbs uuid p startedAt appendMode w =
     (case invoke (Call_Writer p appendMode) (driver_Writer (blobStore lbs) p appendMode) w of
        (Inl err, w1) \<Rightarrow> (Inl err, w1)
      | (Inr fw, w1) \<Rightarrow>
          (Inr \<lparr>bw_id = uuid, bw_startedAt = startedAt, bw_fileWriter = fw, bw_path = p,
                 bw_resumableDigestEnabled = resumableDigestEnabled lbs\<rparr>, w1))"

text \<open>
  A \<open>distribution.BlobCreateOption\<close> is applied to the options under construction and may
  fail. \<open>WithMountFrom\<close> is always handed a \<open>*distribution.CreateOptions\<close> by \<open>Create\<close>,
  so its type assertion succeeds.
\<close>

type_synonym BlobCreateOption = "CreateOptions \<Rightarrow> error + CreateOptions"

definition WithMountFrom :: "Canonical \<Rightarrow> BlobCreateOption" where
  "WithMountFrom ref opts = Inr (opts\<lparr>ShouldMount := True, From := Some ref\<rparr>)"

fun apply_options :: "BlobCreateOption list \<Rightarrow> CreateOptions \<Rightarrow> error + CreateOptions" where
  "apply_options [] opts = Inr opts"
| "apply_options (option # options) opts =
     (case option opts of Inl err \<Rightarrow> Inl err | Inr opts1 \<Rightarrow> apply_options options opts1)"

definition zero_CreateOptions :: CreateOptions where
  "zero_CreateOptions = \<lparr>ShouldMount = False, From = None, Stat_opt = None\<rparr>"

text \<open>
  The part of \<open>Create\<close> after the mount attempt: a fresh id, the current time, the two
  paths, the startedat file, the writer.
\<close>

definition Create_upload ::
  "'s env \<Rightarrow> 's linkedBlobStore \<Rightarrow> 's world \<Rightarrow> (error + blobWriter) \<times> 's world" where
  "Create_upload env lbs w =
     (case invoke Call_uuid_NewString (uuid_NewString env) w of (uuid, w1) \<Rightarrow>
      (case invoke Call_time_Now (time_Now env) w1 of (startedAt, w2) \<Rightarrow>
      (case pathFor env (uploadDataPathSpec (repository_Name lbs) uuid) of
         Inl err \<Rightarrow> (Inl err, w2)
       | Inr p \<Rightarrow>
      (case pathFor env (uploadStartedAtPathSpec (repository_Name lbs) uuid) of
         Inl err \<Rightarrow> (Inl err, w2)
       | Inr startedAtPath \<Rightarrow>
      (case invoke (Call_PutContent startedAtPath (Format_RFC3339 env startedAt))
              (driver_PutContent (blobStore lbs) startedAtPath (Format_RFC3339 env startedAt)) w2 of
         (Some err, w3) \<Rightarrow> (Inl err, w3)
       | (None, w3) \<Rightarrow> newBlobUpload lbs uuid p startedAt False w3)))))"

text \<open>
  \<open>Create\<close>. With \<open>ShouldMount\<close> set and no \<open>From\<close>, \<open>opts.Mount.From.Digest()\<close> is a
  call on a nil interface: Go panics, here the error \<open>OtherError ''nil pointer dereference''\<close>.
\<close>

definition Create ::
  "'s env \<Rightarrow> 's linkedBlobStore \<Rightarrow> BlobCreateOption list \<Rightarrow> 's world
    \<Rightarrow> (error + blobWriter) \<times> 's world" where
  "Create env lbs options w0 =
     (let w = logcall (Call_Debug ''(*linkedBlobStore).Create'') w0 in
      (case apply_options options zero_CreateOptions of
         Inl err \<Rightarrow> (Inl err, w)
       | Inr opts \<Rightarrow>
           (if ShouldMount opts then
              (case From opts of
                 None \<Rightarrow> (Inl (OtherError ''nil pointer dereference''), w)
               | Some fromRef \<Rightarrow>
                   (case mount lbs fromRef (ref_Digest fromRef) (Stat_opt opts) w of
                      ((desc, None), w1) \<Rightarrow> (Inl (ErrBlobMounted fromRef desc), w1)
                    | ((desc, Some err), w1) \<Rightarrow> Create_upload env lbs w1))
            else Create_upload env lbs w)))"

text \<open>
  The calls by which \<open>Create\<close> opens an upload session: drawing an id, reading the clock,
  writing a file, opening a writer.
\<close>

fun session_call :: "call \<Rightarrow> bool" where
  "session_call Call_uuid_NewString = True"
| "session_call Call_time_Now = True"
| "session_call (Call_PutContent p content) = True"
| "session_call (Call_Writer p appendMode) = True"
| "session_call c = False"

definition Resume ::
  "'s env \<Rightarrow> 's linkedBlobStore \<Rightarrow> string \<Rightarrow> 's world \<Rightarrow> (error + blobWriter) \<times> 's world" where
  "Resume env lbs uploadId w0 =
     (let w = logcall (Call_Debug ''(*linkedBlobStore).Resume'') w0 in
      (case pathFor env (uploadStartedAtPathSpec (repository_Name lbs) uploadId) of
         Inl err \<Rightarrow> (Inl err, w)
       | Inr startedAtPath \<Rightarrow>
      (case invoke (Call_GetContent startedAtPath)
              (driver_GetContent (blobStore lbs) startedAtPath) w of
         (Inl err, w1) \<Rightarrow>
           (case err of
              PathNotFoundError p \<Rightarrow> (Inl ErrBlobUploadUnknown, w1)
            | _ \<Rightarrow> (Inl err, w1))
       | (Inr startedAtBytes, w1) \<Rightarrow>
      (case Parse_RFC3339 env startedAtBytes of
         Inl err \<Rightarrow> (Inl err, w1)
       | Inr startedAt \<Rightarrow>
      (case pathFor env (uploadDataPathSpec (repository_Name lbs) uploadId) of
         Inl err \<Rightarrow> (Inl err, w1)
       | Inr p \<Rightarrow> newBlobUpload lbs uploadId p startedAt True w1)))))"

section \<open>linkedBlobStore: Put, Delete, Enumerate\<close>

definition Put ::
  "'s env \<Rightarrow> 's linkedBlobStore \<Rightarrow> string \<Rightarrow> string \<Rightarrow> 's world \<Rightarrow> (Descriptor \<times> error option) \<times> 's world" where
  "Put env lbs mediaType p w =
     (let dgst = digest_FromBytes env p;
          zero = \<lparr>MediaType = '''', Digest = '''', Size = 0\<rparr> in
      (case invoke (Call_blobStore_Put mediaType p) (bs_Put (blobStore lbs) mediaType p) w of
         (Inl err, w1) \<Rightarrow> ((zero, Some err), logcall (Call_Errorf ''error putting into main store'') w1)
       | (Inr desc, w1) \<Rightarrow>
           (case invoke (Call_SetDescriptor dgst desc)
                   (svc_SetDescriptor (blobAccessController lbs) dgst desc) w1 of
              (Some err, w2) \<Rightarrow> ((zero, Some err), w2)
            | (None, w2) \<Rightarrow>
                (case linkBlob lbs desc [] w2 of (err, w3) \<Rightarrow> ((desc, err), w3)))))"

definition Delete :: "'s linkedBlobStore \<Rightarrow> digest \<Rightarrow> 's world \<Rightarrow> error option \<times> 's world" where
  "Delete lbs dgst w =
     (if \<not> deleteEnabled lbs then (Some ErrUnsupported, w)
      else
        (case invoke (Call_Stat dgst) (svc_Stat (blobAccessController lbs) dgst) w of
           (Inl err, w1) \<Rightarrow> (Some err, w1)
         | (Inr d, w1) \<Rightarrow>
             (case invoke (Call_Clear dgst) (svc_Clear (blobAccessController lbs) dgst) w1 of
                (Some err, w2) \<Rightarrow> (Some err, w2)
              | (None, w2) \<Rightarrow> (None, w2))))"

text \<open>
  Go's \<open>path.Split\<close>: the path is cut right after its last slash; with no slash the
  directory is empty and the file is the whole path.
\<close>

definition path_Split :: "string \<Rightarrow> string \<times> string" where
  "path_Split p =
     (let file = rev (takeWhile (\<lambda>c. c \<noteq> CHR ''/'') (rev p))
      in (take (length p - length file) p, file))"

text \<open>
  Modelled from the spec: the driver's \<open>Walk\<close>, which is not among the embedded sources.
  The driver lists the tree under the root (or fails), then the visitor is called on each
  entry in order and the first error it returns ends the walk and is returned.
\<close>

fun Walk_visit ::
  "(FileInfo \<Rightarrow> 's world \<Rightarrow> error option \<times> 's world) \<Rightarrow> FileInfo list \<Rightarrow> 's world
    \<Rightarrow> error option \<times> 's world" where
  "Walk_visit f [] w = (None, w)"
| "Walk_visit f (fileInfo # rest) w =
     (case f fileInfo w of
        (Some err, w1) \<Rightarrow> (Some err, w1)
      | (None, w1) \<Rightarrow> Walk_visit f rest w1)"

text \<open>
  Modelled from the spec: \<open>Walk\<close> itself, which first asks the driver for the entries
  under the root and returns the driver's error when the listing fails.
\<close>

definition driver_Walk ::
  "'s blobStore \<Rightarrow> path \<Rightarrow> (FileInfo \<Rightarrow> 's world \<Rightarrow> error option \<times> 's world) \<Rightarrow> 's world
    \<Rightarrow> error option \<times> 's world" where
  "driver_Walk bs root f w =
     (case invoke (Call_Walk root) (driver_List bs root) w of
        (Inl err, w1) \<Rightarrow> (Some err, w1)
      | (Inr infos, w1) \<Rightarrow> Walk_visit f infos w1)"

text \<open>The function literal that \<open>Enumerate\<close> hands to \<open>Walk\<close>.\<close>

definition Enumerate_visit ::
  "'s linkedBlobStore \<Rightarrow> (digest \<Rightarrow> 's \<Rightarrow> error option \<times> 's) \<Rightarrow> FileInfo \<Rightarrow> 's world
    \<Rightarrow> error option \<times> 's world" where
  "Enumerate_visit lbs ingestor fileInfo w =
     (if IsDir fileInfo then (None, w)
      else
        (let filePath = Path fileInfo; fileName = snd (path_Split filePath) in
         if fileName \<noteq> ''link'' then (None, w)
         else
           (case invoke (Call_readlink filePath) (bs_readlink (blobStore lbs) filePath) w of
              (Inl err, w1) \<Rightarrow> (Some err, w1)
            | (Inr dgst, w1) \<Rightarrow>
                (case Stat lbs dgst w1 of
                   (Inl err, w2) \<Rightarrow> (if err = ErrBlobUnknown then (None, w2) else (Some err, w2))
                 | (Inr d, w2) \<Rightarrow>
                     (case invoke (Call_ingestor dgst) (ingestor dgst) w2 of
                        (Some err, w3) \<Rightarrow> (Some err, w3)
                      | (None, w3) \<Rightarrow> (None, w3))))))"

definition Enumerate ::
  "'s env \<Rightarrow> 's linkedBlobStore \<Rightarrow> (digest \<Rightarrow> 's \<Rightarrow> error option \<times> 's) \<Rightarrow> 's world
    \<Rightarrow> error option \<times> 's world" where
  "Enumerate env lbs ingestor w =
     (case pathFor env (linkDirectoryPathSpec lbs) of
        Inl err \<Rightarrow> (Some err, w)
      | Inr rootPath \<Rightarrow> driver_Walk (blobStore lbs) rootPath (Enumerate_visit lbs ingestor) w)"

text \<open>
  What the claims about \<open>Enumerate\<close> speak of, in the spec's words. A link file is an
  entry that is no directory and is named \<open>link\<close>. Given what readlink answers for a
  path (\<open>rl\<close>), what \<open>Stat\<close> answers for a digest (\<open>st\<close>) and what the ingestor answers
  for a digest (\<open>ing\<close>): the error of an entry, if any (an unknown blob is none); the
  digest an entry resolves to, if any; and the digests handed to the ingestor, read off
  the record of calls.
\<close>

definition link_file :: "FileInfo \<Rightarrow> bool" where
  "link_file fileInfo = (\<not> IsDir fileInfo \<and> snd (path_Split (Path fileInfo)) = ''link'')"

definition entry_error ::
  "(path \<Rightarrow> error + digest) \<Rightarrow> (digest \<Rightarrow> error + Descriptor) \<Rightarrow> (digest \<Rightarrow> error option)
    \<Rightarrow> FileInfo \<Rightarrow> error option" where
  "entry_error rl st ing fileInfo =
     (case rl (Path fileInfo) of
        Inl err \<Rightarrow> Some err
      | Inr dgst \<Rightarrow>
          (case st dgst of
             Inl err \<Rightarrow> (if err = ErrBlobUnknown then None else Some err)
           | Inr desc \<Rightarrow> ing dgst))"

definition resolved ::
  "(path \<Rightarrow> error + digest) \<Rightarrow> (digest \<Rightarrow> error + Descriptor) \<Rightarrow> FileInfo \<Rightarrow> digest list" where
  "resolved rl st fileInfo =
     (if link_file fileInfo then
        (case rl (Path fileInfo) of
           Inl err \<Rightarrow> []
         | Inr dgst \<Rightarrow> (case st dgst of Inl err \<Rightarrow> [] | Inr desc \<Rightarrow> [dgst]))
      else [])"

definition resolvable ::
  "(path \<Rightarrow> error + digest) \<Rightarrow> (digest \<Rightarrow> error + Descriptor) \<Rightarrow> FileInfo list \<Rightarrow> digest list" where
  "resolvable rl st infos = concat (map (resolved rl st) infos)"

fun ingested_of :: "call list \<Rightarrow> digest list" where
  "ingested_of [] = []"
| "ingested_of (Call_ingestor dgst # cs) = dgst # ingested_of cs"
| "ingested_of (c # cs) = ingested_of cs"

text \<open>
  The same in terms of the backend alone, for collaborators whose answers may depend on
  the calls made before. What one entry does, in the spec's words: an entry that is no
  link file does nothing; a link file is read, and a readlink error is the entry's error;
  the target read is checked with \<open>Stat\<close>: an unknown blob is skipped, another error is
  the entry's error; a known target is handed to the ingestor, whose error is the entry's
  error. The result is the entry's error, the digests handed to the ingestor (none or
  one), and the backend left.
\<close>

definition entry_step ::
  "'s linkedBlobStore \<Rightarrow> (digest \<Rightarrow> 's \<Rightarrow> error option \<times> 's) \<Rightarrow> FileInfo \<Rightarrow> 's
    \<Rightarrow> (error option \<times> digest list) \<times> 's" where
  "entry_step lbs ingestor fileInfo s =
     (if link_file fileInfo then
        (case bs_readlink (blobStore lbs) (Path fileInfo) s of
           (Inl err, s1) \<Rightarrow> ((Some err, []), s1)
         | (Inr dgst, s1) \<Rightarrow>
             (case svc_Stat (blobAccessController lbs) dgst s1 of
                (Inl err, s2) \<Rightarrow> ((if err = ErrBlobUnknown then None else Some err, []), s2)
              | (Inr desc, s2) \<Rightarrow>
                  (case ingestor dgst s2 of (r, s3) \<Rightarrow> ((r, [dgst]), s3))))
      else ((None, []), s))"

text \<open>
  What the entries do in order: the first entry with an error ends the run with that
  error; the digests handed to the ingestor are collected.
\<close>

fun entries_run ::
  "'s linkedBlobStore \<Rightarrow> (digest \<Rightarrow> 's \<Rightarrow> error option \<times> 's) \<Rightarrow> FileInfo list \<Rightarrow> 's
    \<Rightarrow> (error option \<times> digest list) \<times> 's" where
  "entries_run lbs ingestor [] s = ((None, []), s)"
| "entries_run lbs ingestor (fileInfo # rest) s =
     (case entry_step lbs ingestor fileInfo s of
        ((Some err, ds), s1) \<Rightarrow> ((Some err, ds), s1)
      | ((None, ds), s1) \<Rightarrow>
          (case entries_run lbs ingestor rest s1 of
             ((r, ds1), s2) \<Rightarrow> ((r, ds @ ds1), s2)))"

text \<open>\<open>blobLinkPath\<close> and \<open>manifestRevisionLinkPath\<close>, the two \<open>linkPathFunc\<close>s.\<close>

definition blobLinkPath :: "'s env \<Rightarrow> string \<Rightarrow> digest \<Rightarrow> error + path" where
  "blobLinkPath env name dgst = pathFor env (layerLinkPathSpec name dgst)"

definition manifestRevisionLinkPath :: "'s env \<Rightarrow> string \<Rightarrow> digest \<Rightarrow> error + path" where
  "manifestRevisionLinkPath env name dgst = pathFor env (manifestRevisionLinkPathSpec name dgst)"

section \<open>Purging upload sessions\<close>

text \<open>
  \<open>PurgeUploads\<close> and \<open>getOutstandingUploads\<close> are called by the tests and are not among
  the embedded sources, nor is the storage driver they work on: this section is modelled
  from the spec. The storage is a flat namespace of files; a path is the list of its
  segments.
\<close>

type_synonym segpath = "string list"
type_synonym files = "(segpath \<times> string) list"

text \<open>
  Modelled from the spec: the fixed path segment of upload artifacts, which \<open>pathFor\<close>
  puts into every upload path.
\<close>

definition uploadsPathComponent :: string where
  "uploadsPathComponent = ''_uploads''"

text \<open>
  Modelled from the spec: how the sweep recognises an upload session, structurally. The
  session directory of a stored path is its prefix up to the segment that follows the
  first \<open>_uploads\<close> segment; a path without that segment belongs to no session.
\<close>

fun sessionDir :: "segpath \<Rightarrow> segpath option" where
  "sessionDir [] = None"
| "sessionDir [x] = None"
| "sessionDir (x # y # rest) =
     (if x = uploadsPathComponent then Some [x, y]
      else map_option ((#) x) (sessionDir (y # rest)))"

text \<open>Modelled from the spec: a path lies under a directory when the directory is a prefix of it.\<close>

definition under :: "segpath \<Rightarrow> segpath \<Rightarrow> bool" where
  "under dir p = (take (length dir) p = dir)"

text \<open>
  Modelled from the spec: step 1 of the sweep, the walk over the whole namespace that
  collects the session directories.
\<close>

definition sessions :: "files \<Rightarrow> segpath list" where
  "sessions fs = remdups (List.map_filter sessionDir (map fst fs))"

text \<open>
  Modelled from the spec: steps 2 and 3 of the sweep for one session. Its startedat file
  is absent (\<open>None\<close>), unparsable (\<open>Some (Inl err)\<close>) or holds a time.
\<close>

definition readStartedAtFile ::
  "(string \<Rightarrow> error + time) \<Rightarrow> files \<Rightarrow> segpath \<Rightarrow> (error + time) option" where
  "readStartedAtFile parse fs dir =
     (case map_of fs (dir @ [''startedat'']) of
        None \<Rightarrow> None
      | Some content \<Rightarrow> Some (parse content))"

text \<open>
  Modelled from the spec: steps 2 and 3 over all sessions. A session without startedat
  file is skipped; an unparsable one adds an error and the scan goes on; the others are
  the outstanding uploads with their start times.
\<close>

fun gather ::
  "(string \<Rightarrow> error + time) \<Rightarrow> files \<Rightarrow> segpath list
    \<Rightarrow> (segpath \<times> time) list \<times> (segpath \<times> error) list" where
  "gather parse fs [] = ([], [])"
| "gather parse fs (dir # dirs) =
     (case gather parse fs dirs of (uploads, errors) \<Rightarrow>
        (case readStartedAtFile parse fs dir of
           None \<Rightarrow> (uploads, errors)
         | Some (Inl err) \<Rightarrow> (uploads, (dir, err) # errors)
         | Some (Inr t) \<Rightarrow> ((dir, t) # uploads, errors)))"

text \<open>Modelled from the spec: \<open>getOutstandingUploads\<close>, steps 1 to 3 together.\<close>

definition getOutstandingUploads ::
  "(string \<Rightarrow> error + time) \<Rightarrow> files \<Rightarrow> (segpath \<times> time) list \<times> (segpath \<times> error) list" where
  "getOutstandingUploads parse fs = gather parse fs (sessions fs)"

text \<open>
  Modelled from the spec: the driver's delete, which removes everything stored under a
  directory. Whether the driver refuses a deletion, and with which error, is the
  parameter \<open>deleteError\<close> of the sweep.
\<close>

definition driverDelete :: "segpath \<Rightarrow> files \<Rightarrow> files" where
  "driverDelete dir fs = filter (\<lambda>(p, content). \<not> under dir p) fs"

text \<open>
  Modelled from the spec: steps 4 and 6 of the sweep. A session that started before
  \<open>olderThan\<close> is a candidate; it is deleted only when \<open>actuallyDelete\<close> is set; a failed
  deletion is an error of that session and the sweep goes on.
\<close>

fun purgeLoop ::
  "(segpath \<Rightarrow> error option) \<Rightarrow> time \<Rightarrow> bool \<Rightarrow> (segpath \<times> time) list \<Rightarrow> files
    \<Rightarrow> segpath list \<times> (segpath \<times> error) list \<times> files" where
  "purgeLoop deleteError olderThan actuallyDelete [] fs = ([], [], fs)"
| "purgeLoop deleteError olderThan actuallyDelete ((dir, t) # uploads) fs =
     (if t < olderThan then
        (if actuallyDelete then
           (case deleteError dir of
              Some err \<Rightarrow>
                (case purgeLoop deleteError olderThan actuallyDelete uploads fs of
                   (deleted, errors, fs1) \<Rightarrow> (deleted, (dir, err) # errors, fs1))
            | None \<Rightarrow>
                (case purgeLoop deleteError olderThan actuallyDelete uploads (driverDelete dir fs) of
                   (deleted, errors, fs1) \<Rightarrow> (dir # deleted, errors, fs1)))
         else
           (case purgeLoop deleteError olderThan actuallyDelete uploads fs of
              (deleted, errors, fs1) \<Rightarrow> (dir # deleted, errors, fs1)))
      else purgeLoop deleteError olderThan actuallyDelete uploads fs)"

text \<open>
  Modelled from the spec: \<open>PurgeUploads\<close>, which returns the deleted session directories
  and the errors of the scan followed by those of the deletions (and, here, the storage
  after the sweep).
\<close>

definition PurgeUploads ::
  "(string \<Rightarrow> error + time) \<Rightarrow> (segpath \<Rightarrow> error option) \<Rightarrow> files \<Rightarrow> time \<Rightarrow> bool
    \<Rightarrow> segpath list \<times> (segpath \<times> error) list \<times> files" where
  "PurgeUploads parse deleteError fs olderThan actuallyDelete =
     (case getOutstandingUploads parse fs of (uploads, errors) \<Rightarrow>
        (case purgeLoop deleteError olderThan actuallyDelete uploads fs of
           (deleted, errors1, fs1) \<Rightarrow> (deleted, errors @ errors1, fs1)))"

section \<open>An in-memory backend\<close>

text \<open>
  A small backend in the manner of the tests' in-memory driver, on which the functions
  above are run at concrete inputs: link and data files by path, global blobs by digest,
  the ids the uuid source will hand out, a clock, and what an ingestor has collected.
\<close>

record mem =
  mem_files :: "(path \<times> string) list"
  mem_blobs :: "(digest \<times> string) list"
  mem_ids :: "string list"
  mem_clock :: time
  mem_ingested :: "digest list"

definition mem_getContent :: "path \<Rightarrow> mem \<Rightarrow> (error + string) \<times> mem" where
  "mem_getContent p s =
     (case map_of (mem_files s) p of
        None \<Rightarrow> (Inl (PathNotFoundError p), s)
      | Some content \<Rightarrow> (Inr content, s))"

definition mem_putContent :: "path \<Rightarrow> string \<Rightarrow> mem \<Rightarrow> error option \<times> mem" where
  "mem_putContent p content s = (None, s\<lparr>mem_files := (p, content) # mem_files s\<rparr>)"

definition mem_delete :: "path \<Rightarrow> mem \<Rightarrow> error option \<times> mem" where
  "mem_delete p s =
     (case map_of (mem_files s) p of
        None \<Rightarrow> (Some (PathNotFoundError p), s)
      | Some content \<Rightarrow> (None, s\<lparr>mem_files := filter (\<lambda>(q, c). q \<noteq> p) (mem_files s)\<rparr>))"

definition mem_stat :: "digest \<Rightarrow> mem \<Rightarrow> (error + Descriptor) \<times> mem" where
  "mem_stat d s =
     (case map_of (mem_blobs s) d of
        None \<Rightarrow> (Inl ErrBlobUnknown, s)
      | Some content \<Rightarrow>
          (Inr \<lparr>MediaType = ''application/octet-stream'', Digest = d,
                 Size = int (length content)\<rparr>, s))"

definition mem_get :: "digest \<Rightarrow> mem \<Rightarrow> (error + string) \<times> mem" where
  "mem_get d s =
     (case map_of (mem_blobs s) d of
        None \<Rightarrow> (Inl ErrBlobUnknown, s)
      | Some content \<Rightarrow> (Inr content, s))"

definition mem_list :: "path \<Rightarrow> mem \<Rightarrow> (error + FileInfo list) \<times> mem" where
  "mem_list root s =
     (Inr (map (\<lambda>(p, c). \<lparr>Path = p, IsDir = False\<rparr>)
             (filter (\<lambda>(p, c). take (length root) p = root) (mem_files s))), s)"

definition mem_blobStore :: "mem blobStore" where
  "mem_blobStore =
     \<lparr>bs_Get = mem_get, bs_Open = mem_get,
      bs_Put = (\<lambda>mediaType p s. (Inl (OtherError ''read-only''), s)),
      bs_readlink = mem_getContent, bs_link = mem_putContent, statter_Stat = mem_stat,
      driver_GetContent = mem_getContent, driver_PutContent = mem_putContent,
      driver_Delete = mem_delete, driver_Writer = (\<lambda>p appendMode s. (Inr 0, s)),
      driver_List = mem_list\<rparr>"

definition mem_pathFor :: "pathSpec \<Rightarrow> error + path" where
  "mem_pathFor spec =
     (case spec of
        uploadDataPathSpec name u \<Rightarrow> Inr (name @ ''/_uploads/'' @ u @ ''/data'')
      | uploadStartedAtPathSpec name u \<Rightarrow> Inr (name @ ''/_uploads/'' @ u @ ''/startedat'')
      | layerLinkPathSpec name d \<Rightarrow>
          (if d = '''' then Inl (OtherError ''invalid digest'')
           else Inr (name @ ''/_layers/'' @ d @ ''/link''))
      | manifestRevisionLinkPathSpec name d \<Rightarrow>
          (if d = '''' then Inl (OtherError ''invalid digest'')
           else Inr (name @ ''/_manifests/revisions/'' @ d @ ''/link''))
      | layersPathSpec name \<Rightarrow> Inr (name @ ''/_layers'')
      | manifestRevisionsPathSpec name \<Rightarrow> Inr (name @ ''/_manifests/revisions''))"

definition mem_parse :: "string \<Rightarrow> error + time" where
  "mem_parse str =
     (case map_of [(''2024-01-01T00:00:00Z'', 1704067200), (''2024-01-01T01:00:00Z'', 1704070800)] str of
        None \<Rightarrow> Inl (OtherError ''parsing time'')
      | Some t \<Rightarrow> Inr t)"

definition mem_format :: "time \<Rightarrow> string" where
  "mem_format t =
     (if t = 1704067200 then ''2024-01-01T00:00:00Z''
      else if t = 1704070800 then ''2024-01-01T01:00:00Z'' else '''')"

definition mem_env :: "mem env" where
  "mem_env =
     \<lparr>pathFor = mem_pathFor,
      uuid_NewString = (\<lambda>s. (case mem_ids s of [] \<Rightarrow> ('''', s) | u # us \<Rightarrow> (u, s\<lparr>mem_ids := us\<rparr>))),
      time_Now = (\<lambda>s. (mem_clock s, s)),
      Format_RFC3339 = mem_format, Parse_RFC3339 = mem_parse,
      digest_FromBytes = (\<lambda>p. ''sha256:'' @ p)\<rparr>"

definition mem_statter :: "mem linkedBlobStatter" where
  "mem_statter =
     \<lparr>st_blobStore = mem_blobStore, st_repository_Name = ''repo'',
      st_linkPath = blobLinkPath mem_env\<rparr>"

definition mem_lbs :: "bool \<Rightarrow> mem linkedBlobStore" where
  "mem_lbs del =
     \<lparr>blobStore = mem_blobStore,
      registry_Repository = (\<lambda>ref s. (None, s)),
      source_Stat = (\<lambda>ref d s.
        (case mem_stat d s of
           (Inl err, s1) \<Rightarrow> (Inl err, s1)
         | (Inr desc, s1) \<Rightarrow> (Inr (desc\<lparr>MediaType := ''application/vnd.source.layer''\<rparr>), s1))),
      blobServer_ServeBlob = (\<lambda>rw r d s.
        (case mem_get d s of
           (Inl err, s1) \<Rightarrow> ((Some err, rw), s1)
         | (Inr content, s1) \<Rightarrow> ((None, rw\<lparr>Body := content\<rparr>), s1))),
      blobAccessController = linkedBlobStatter_service mem_statter,
      repository_Name = ''repo'',
      deleteEnabled = del,
      resumableDigestEnabled = False,
      linkPath = blobLinkPath mem_env,
      linkDirectoryPathSpec = layersPathSpec ''repo''\<rparr>"

definition mem_ingestor :: "digest \<Rightarrow> mem \<Rightarrow> error option \<times> mem" where
  "mem_ingestor d s = (None, s\<lparr>mem_ingested := mem_ingested s @ [d]\<rparr>)"

text \<open>An ingestor that takes one digest and refuses every later one.\<close>

definition mem_ingestor_once :: "digest \<Rightarrow> mem \<Rightarrow> error option \<times> mem" where
  "mem_ingestor_once d s =
     (if mem_ingested s = [] then (None, s\<lparr>mem_ingested := [d]\<rparr>)
      else (Some (OtherError ''ingestor full''), s))"

definition mem_world :: "(path \<times> string) list \<Rightarrow> (digest \<times> string) list \<Rightarrow> mem world" where
  "mem_world fs bs =
     \<lparr>backend = \<lparr>mem_files = fs, mem_blobs = bs, mem_ids = [''id-1'', ''id-2''],
                  mem_clock = 1704070800, mem_ingested = []\<rparr>,
      calls = []\<rparr>"

section \<open>Facts about the embedding\<close>

lemmas mem_defs = mem_statter_def mem_blobStore_def mem_env_def mem_pathFor_def mem_getContent_def
  mem_putContent_def mem_delete_def mem_stat_def mem_get_def mem_list_def mem_lbs_def mem_world_def
  mem_parse_def mem_format_def mem_ingestor_def mem_ingestor_once_def blobLinkPath_def linkedBlobStatter_service_def
  run_def

subsection \<open>linkedBlobStatter.Stat\<close>

text \<open>
  Claim C4. When the link path of a digest \<open>D\<close> does not resolve, \<open>Stat\<close> returns that
  error and nothing is read. When it resolves: when reading the link reports
  path-not-found, \<open>Stat\<close> fails with \<open>ErrBlobUnknown\<close>; when the link holds a target
  (equal to \<open>D\<close> or not), the result is the global statter's answer for that target, and
  the calls made are the readlink, a warning exactly when the target differs from \<open>D\<close>,
  and the global stat keyed by the target. Every descriptor \<open>Stat\<close> returns is the global
  statter's answer for the target read from the link.
\<close>

theorem linkedBlobStatter_Stat_link_resolution:
  fixes lbs :: "'s linkedBlobStatter"
  shows
   "(\<forall>err. st_linkPath lbs (st_repository_Name lbs) D = Inl err \<longrightarrow>
        linkedBlobStatter_Stat lbs D w = (Inl err, w)) \<and>
    (\<forall>p q s1. st_linkPath lbs (st_repository_Name lbs) D = Inr p \<and>
        bs_readlink (st_blobStore lbs) p (backend w) = (Inl (PathNotFoundError q), s1) \<longrightarrow>
        fst (linkedBlobStatter_Stat lbs D w) = Inl ErrBlobUnknown) \<and>
    (\<forall>p target s1. st_linkPath lbs (st_repository_Name lbs) D = Inr p \<and>
        bs_readlink (st_blobStore lbs) p (backend w) = (Inr target, s1) \<longrightarrow>
        fst (linkedBlobStatter_Stat lbs D w) = fst (statter_Stat (st_blobStore lbs) target s1) \<and>
        calls (snd (linkedBlobStatter_Stat lbs D w)) =
          calls w @ [Call_readlink p] @ (if target \<noteq> D then [Call_Warnf D target] else [])
            @ [Call_statter_Stat target]) \<and>
    (\<forall>desc. fst (linkedBlobStatter_Stat lbs D w) = Inr desc \<longrightarrow>
        (\<exists>p target s1. st_linkPath lbs (st_repository_Name lbs) D = Inr p \<and>
           bs_readlink (st_blobStore lbs) p (backend w) = (Inr target, s1) \<and>
           fst (statter_Stat (st_blobStore lbs) target s1) = Inr desc))"
  by (auto simp: linkedBlobStatter_Stat_def invoke_def logcall_def Let_def
           split: sum.splits prod.splits error.splits if_splits)

text \<open>
  In the in-memory backend, with one link \<open>sha512:aa\<close> whose target is the stored blob
  \<open>sha256:bb\<close>: an unlinked digest is unknown, and the alias resolves to the descriptor
  of the target.
\<close>

theorem linkedBlobStatter_Stat_link_resolution_witness:
  "fst (linkedBlobStatter_Stat mem_statter ''sha256:zz''
         (mem_world [(''repo/_layers/sha512:aa/link'', ''sha256:bb'')] [(''sha256:bb'', ''hello'')]))
     = Inl ErrBlobUnknown \<and>
   fst (linkedBlobStatter_Stat mem_statter ''sha512:aa''
         (mem_world [(''repo/_layers/sha512:aa/link'', ''sha256:bb'')] [(''sha256:bb'', ''hello'')]))
     = Inr \<lparr>MediaType = ''application/octet-stream'', Digest = ''sha256:bb'', Size = 5\<rparr>"
proof -
  let ?W = "mem_world [(''repo/_layers/sha512:aa/link'', ''sha256:bb'')] [(''sha256:bb'', ''hello'')]"
  have h: "st_linkPath mem_statter (st_repository_Name mem_statter) ''sha256:zz''
             = Inr ''repo/_layers/sha256:zz/link'' \<and>
           bs_readlink (st_blobStore mem_statter) ''repo/_layers/sha256:zz/link'' (backend ?W)
             = (Inl (PathNotFoundError ''repo/_layers/sha256:zz/link''), backend ?W)"
    by (simp add: mem_defs)
  from linkedBlobStatter_Stat_link_resolution [of mem_statter "''sha256:zz''" ?W,
      THEN conjunct2, THEN conjunct1, THEN spec, THEN spec, THEN spec, THEN mp, OF h]
  have absent: "fst (linkedBlobStatter_Stat mem_statter ''sha256:zz'' ?W) = Inl ErrBlobUnknown" .
  have aliased: "fst (linkedBlobStatter_Stat mem_statter ''sha512:aa'' ?W)
     = Inr \<lparr>MediaType = ''application/octet-stream'', Digest = ''sha256:bb'', Size = 5\<rparr>"
    by (simp add: linkedBlobStatter_Stat_def invoke_def logcall_def mem_defs)
  from absent aliased show ?thesis by (intro conjI)
qed

subsection \<open>Get, Open, ServeBlob\<close>

lemma Stat_linked_absent:
  fixes lbs :: "'s linkedBlobStore"
  assumes "blobAccessController lbs = linkedBlobStatter_service st"
    and "st_linkPath st (st_repository_Name st) D = Inr p"
    and "bs_readlink (st_blobStore st) p (backend w) = (Inl (PathNotFoundError q), s1)"
  shows "Stat lbs D w = (Inl ErrBlobUnknown, \<lparr>backend = s1, calls = calls w @ [Call_Stat D]\<rparr>)"
  using assms
  by (simp add: Stat_def linkedBlobStatter_service_def linkedBlobStatter_Stat_def invoke_def
        run_def)

lemma Get_after_Stat:
  fixes lbs :: "'s linkedBlobStore"
  shows "Get lbs D w =
     (case Stat lbs D w of
        (Inl err, w1) \<Rightarrow> (Inl err, w1)
      | (Inr canonical, w1) \<Rightarrow>
          (fst (bs_Get (blobStore lbs) (Digest canonical) (backend w1)),
           \<lparr>backend = snd (bs_Get (blobStore lbs) (Digest canonical) (backend w1)),
            calls = calls w1 @ [Call_blobStore_Get (Digest canonical)]\<rparr>))"
  by (simp add: Get_def invoke_def split: prod.splits sum.splits)

lemma Open_after_Stat:
  fixes lbs :: "'s linkedBlobStore"
  shows "Open lbs D w =
     (case Stat lbs D w of
        (Inl err, w1) \<Rightarrow> (Inl err, w1)
      | (Inr canonical, w1) \<Rightarrow>
          (fst (bs_Open (blobStore lbs) (Digest canonical) (backend w1)),
           \<lparr>backend = snd (bs_Open (blobStore lbs) (Digest canonical) (backend w1)),
            calls = calls w1 @ [Call_blobStore_Open (Digest canonical)]\<rparr>))"
  by (simp add: Open_def invoke_def split: prod.splits sum.splits)

lemma ServeBlob_after_Stat:
  fixes lbs :: "'s linkedBlobStore"
  shows "ServeBlob lbs rw r D w =
     (case Stat lbs D w of
        (Inl err, w1) \<Rightarrow> ((Some err, rw), w1)
      | (Inr canonical, w1) \<Rightarrow>
          (let rw1 = (if MediaType canonical \<noteq> ''''
                      then rw\<lparr>Header := (Header rw)(''Content-Type'' \<mapsto> MediaType canonical)\<rparr>
                      else rw)
           in (fst (blobServer_ServeBlob lbs rw1 r (Digest canonical) (backend w1)),
           \<lparr>backend = snd (blobServer_ServeBlob lbs rw1 r (Digest canonical) (backend w1)),
            calls = calls w1 @ [Call_blobServer_ServeBlob (Digest canonical)]\<rparr>)))"
  by (simp add: ServeBlob_def invoke_def Let_def split: prod.splits sum.splits)

text \<open>
  Claim C3. \<open>Get\<close>, \<open>Open\<close> and \<open>ServeBlob\<close> begin with \<open>Stat\<close> on the digest \<open>D\<close>
  they are given. When \<open>Stat\<close> fails they return its error and \<open>Stat\<close> is the only call
  made. When \<open>Stat\<close> returns a descriptor, exactly one call follows: the read of the
  global store, keyed by that descriptor's digest. With the linked statter as access
  controller and the link of \<open>D\<close> absent, the error is \<open>ErrBlobUnknown\<close> and nothing is
  read.
\<close>

theorem Get_Open_ServeBlob_access_check:
  fixes lbs :: "'s linkedBlobStore"
  shows
  "(\<forall>err s1. svc_Stat (blobAccessController lbs) D (backend w) = (Inl err, s1) \<longrightarrow>
       Get lbs D w = (Inl err, \<lparr>backend = s1, calls = calls w @ [Call_Stat D]\<rparr>) \<and>
       Open lbs D w = (Inl err, \<lparr>backend = s1, calls = calls w @ [Call_Stat D]\<rparr>) \<and>
       ServeBlob lbs rw r D w = ((Some err, rw), \<lparr>backend = s1, calls = calls w @ [Call_Stat D]\<rparr>)) \<and>
   (\<forall>canonical s1. svc_Stat (blobAccessController lbs) D (backend w) = (Inr canonical, s1) \<longrightarrow>
       fst (Get lbs D w) = fst (bs_Get (blobStore lbs) (Digest canonical) s1) \<and>
       calls (snd (Get lbs D w)) = calls w @ [Call_Stat D, Call_blobStore_Get (Digest canonical)] \<and>
       fst (Open lbs D w) = fst (bs_Open (blobStore lbs) (Digest canonical) s1) \<and>
       calls (snd (Open lbs D w)) = calls w @ [Call_Stat D, Call_blobStore_Open (Digest canonical)] \<and>
       (\<exists>rw1. fst (ServeBlob lbs rw r D w) =
                 fst (blobServer_ServeBlob lbs rw1 r (Digest canonical) s1)) \<and>
       calls (snd (ServeBlob lbs rw r D w)) =
         calls w @ [Call_Stat D, Call_blobServer_ServeBlob (Digest canonical)]) \<and>
   (\<forall>st p q s1. blobAccessController lbs = linkedBlobStatter_service st \<and>
       st_linkPath st (st_repository_Name st) D = Inr p \<and>
       bs_readlink (st_blobStore st) p (backend w) = (Inl (PathNotFoundError q), s1) \<longrightarrow>
       fst (Get lbs D w) = Inl ErrBlobUnknown \<and>
       calls (snd (Get lbs D w)) = calls w @ [Call_Stat D] \<and>
       fst (Open lbs D w) = Inl ErrBlobUnknown \<and>
       calls (snd (Open lbs D w)) = calls w @ [Call_Stat D] \<and>
       fst (ServeBlob lbs rw r D w) = (Some ErrBlobUnknown, rw) \<and>
       calls (snd (ServeBlob lbs rw r D w)) = calls w @ [Call_Stat D])"
proof (intro conjI allI impI)
  fix err s1 assume "svc_Stat (blobAccessController lbs) D (backend w) = (Inl err, s1)"
  then have "Stat lbs D w = (Inl err, \<lparr>backend = s1, calls = calls w @ [Call_Stat D]\<rparr>)"
    by (simp add: Stat_def invoke_def)
  then show "Get lbs D w = (Inl err, \<lparr>backend = s1, calls = calls w @ [Call_Stat D]\<rparr>)"
    "Open lbs D w = (Inl err, \<lparr>backend = s1, calls = calls w @ [Call_Stat D]\<rparr>)"
    "ServeBlob lbs rw r D w = ((Some err, rw), \<lparr>backend = s1, calls = calls w @ [Call_Stat D]\<rparr>)"
    by (simp_all add: Get_after_Stat Open_after_Stat ServeBlob_after_Stat)
next
  fix canonical s1
  assume "svc_Stat (blobAccessController lbs) D (backend w) = (Inr canonical, s1)"
  then have h: "Stat lbs D w = (Inr canonical, \<lparr>backend = s1, calls = calls w @ [Call_Stat D]\<rparr>)"
    by (simp add: Stat_def invoke_def)
  then show "fst (Get lbs D w) = fst (bs_Get (blobStore lbs) (Digest canonical) s1)"
    "calls (snd (Get lbs D w)) = calls w @ [Call_Stat D, Call_blobStore_Get (Digest canonical)]"
    "fst (Open lbs D w) = fst (bs_Open (blobStore lbs) (Digest canonical) s1)"
    "calls (snd (Open lbs D w)) = calls w @ [Call_Stat D, Call_blobStore_Open (Digest canonical)]"
    "calls (snd (ServeBlob lbs rw r D w)) =
       calls w @ [Call_Stat D, Call_blobServer_ServeBlob (Digest canonical)]"
    by (simp_all add: Get_after_Stat Open_after_Stat ServeBlob_after_Stat Let_def)
  from h show "\<exists>rw1. fst (ServeBlob lbs rw r D w) =
                 fst (blobServer_ServeBlob lbs rw1 r (Digest canonical) s1)"
    by (simp add: ServeBlob_after_Stat Let_def) blast
next
  fix st p q s1
  assume "blobAccessController lbs = linkedBlobStatter_service st \<and>
       st_linkPath st (st_repository_Name st) D = Inr p \<and>
       bs_readlink (st_blobStore st) p (backend w) = (Inl (PathNotFoundError q), s1)"
  then have "Stat lbs D w = (Inl ErrBlobUnknown, \<lparr>backend = s1, calls = calls w @ [Call_Stat D]\<rparr>)"
    by (simp add: Stat_linked_absent)
  then show "fst (Get lbs D w) = Inl ErrBlobUnknown"
       "calls (snd (Get lbs D w)) = calls w @ [Call_Stat D]"
       "fst (Open lbs D w) = Inl ErrBlobUnknown"
       "calls (snd (Open lbs D w)) = calls w @ [Call_Stat D]"
       "fst (ServeBlob lbs rw r D w) = (Some ErrBlobUnknown, rw)"
       "calls (snd (ServeBlob lbs rw r D w)) = calls w @ [Call_Stat D]"
    by (simp_all add: Get_after_Stat Open_after_Stat ServeBlob_after_Stat)
qed

text \<open>
  In the in-memory backend: reading an unlinked digest stops after \<open>Stat\<close>; reading
  through the alias \<open>sha512:aa\<close> reads the global store at \<open>sha256:bb\<close>.
\<close>

theorem Get_Open_ServeBlob_access_check_witness:
  "fst (Get (mem_lbs False) ''sha256:zz''
      (mem_world [(''repo/_layers/sha512:aa/link'', ''sha256:bb'')] [(''sha256:bb'', ''hello'')]))
     = Inl ErrBlobUnknown \<and>
   calls (snd (Get (mem_lbs False) ''sha256:zz''
      (mem_world [(''repo/_layers/sha512:aa/link'', ''sha256:bb'')] [(''sha256:bb'', ''hello'')])))
     = [Call_Stat ''sha256:zz''] \<and>
   fst (Get (mem_lbs False) ''sha512:aa''
      (mem_world [(''repo/_layers/sha512:aa/link'', ''sha256:bb'')] [(''sha256:bb'', ''hello'')]))
     = Inr ''hello'' \<and>
   calls (snd (Get (mem_lbs False) ''sha512:aa''
      (mem_world [(''repo/_layers/sha512:aa/link'', ''sha256:bb'')] [(''sha256:bb'', ''hello'')])))
     = [Call_Stat ''sha512:aa'', Call_blobStore_Get ''sha256:bb'']"
proof -
  let ?W = "mem_world [(''repo/_layers/sha512:aa/link'', ''sha256:bb'')] [(''sha256:bb'', ''hello'')]"
  have h: "blobAccessController (mem_lbs False) = linkedBlobStatter_service mem_statter \<and>
           st_linkPath mem_statter (st_repository_Name mem_statter) ''sha256:zz''
             = Inr ''repo/_layers/sha256:zz/link'' \<and>
           bs_readlink (st_blobStore mem_statter) ''repo/_layers/sha256:zz/link'' (backend ?W)
             = (Inl (PathNotFoundError ''repo/_layers/sha256:zz/link''), backend ?W)"
    by (simp add: mem_defs)
  note absent = Get_Open_ServeBlob_access_check [of "mem_lbs False" "''sha256:zz''" ?W,
      THEN conjunct2, THEN conjunct2, THEN spec, THEN spec, THEN spec, THEN spec, THEN mp, OF h]
  have a1: "fst (Get (mem_lbs False) ''sha256:zz'' ?W) = Inl ErrBlobUnknown"
    by (rule absent [THEN conjunct1])
  have a2: "calls (snd (Get (mem_lbs False) ''sha256:zz'' ?W)) = calls ?W @ [Call_Stat ''sha256:zz'']"
    by (rule absent [THEN conjunct2, THEN conjunct1])
  have c: "calls ?W = []"
    by (simp add: mem_defs)
  have aliased: "fst (Get (mem_lbs False) ''sha512:aa'' ?W) = Inr ''hello'' \<and>
     calls (snd (Get (mem_lbs False) ''sha512:aa'' ?W))
       = [Call_Stat ''sha512:aa'', Call_blobStore_Get ''sha256:bb'']"
    by (simp add: Get_def Stat_def linkedBlobStatter_Stat_def invoke_def logcall_def mem_defs)
  from a1 a2 c aliased show ?thesis by simp
qed

subsection \<open>Delete\<close>

text \<open>
  Claim C7. With deletion disabled \<open>Delete\<close> fails with \<open>ErrUnsupported\<close> and the world is
  as before: no call is made. With deletion enabled the first call is \<open>Stat\<close> on the
  digest; when it fails that error is returned and \<open>Stat\<close> is the only call made, so
  \<open>Clear\<close> is not called; when it succeeds \<open>Clear\<close> follows and its result is returned.
  With the linked statter as access controller and the link absent, \<open>Delete\<close> fails with
  \<open>ErrBlobUnknown\<close>.
\<close>

theorem Delete_unsupported_or_restat:
  fixes lbs :: "'s linkedBlobStore"
  shows
  "(\<not> deleteEnabled lbs \<longrightarrow> Delete lbs D w = (Some ErrUnsupported, w)) \<and>
   (\<forall>err s1. deleteEnabled lbs \<and>
       svc_Stat (blobAccessController lbs) D (backend w) = (Inl err, s1) \<longrightarrow>
       Delete lbs D w = (Some err, \<lparr>backend = s1, calls = calls w @ [Call_Stat D]\<rparr>)) \<and>
   (\<forall>d s1. deleteEnabled lbs \<and>
       svc_Stat (blobAccessController lbs) D (backend w) = (Inr d, s1) \<longrightarrow>
       fst (Delete lbs D w) = fst (svc_Clear (blobAccessController lbs) D s1) \<and>
       backend (snd (Delete lbs D w)) = snd (svc_Clear (blobAccessController lbs) D s1) \<and>
       calls (snd (Delete lbs D w)) = calls w @ [Call_Stat D, Call_Clear D]) \<and>
   (\<forall>st p q s1. deleteEnabled lbs \<and>
       blobAccessController lbs = linkedBlobStatter_service st \<and>
       st_linkPath st (st_repository_Name st) D = Inr p \<and>
       bs_readlink (st_blobStore st) p (backend w) = (Inl (PathNotFoundError q), s1) \<longrightarrow>
       Delete lbs D w = (Some ErrBlobUnknown, \<lparr>backend = s1, calls = calls w @ [Call_Stat D]\<rparr>))"
proof (intro conjI allI impI)
  assume "\<not> deleteEnabled lbs"
  then show "Delete lbs D w = (Some ErrUnsupported, w)"
    by (simp add: Delete_def)
next
  fix err s1
  assume "deleteEnabled lbs \<and> svc_Stat (blobAccessController lbs) D (backend w) = (Inl err, s1)"
  then show "Delete lbs D w = (Some err, \<lparr>backend = s1, calls = calls w @ [Call_Stat D]\<rparr>)"
    by (simp add: Delete_def invoke_def)
next
  fix d s1
  assume h: "deleteEnabled lbs \<and> svc_Stat (blobAccessController lbs) D (backend w) = (Inr d, s1)"
  then show "fst (Delete lbs D w) = fst (svc_Clear (blobAccessController lbs) D s1)"
    "backend (snd (Delete lbs D w)) = snd (svc_Clear (blobAccessController lbs) D s1)"
    "calls (snd (Delete lbs D w)) = calls w @ [Call_Stat D, Call_Clear D]"
    by (simp_all add: Delete_def invoke_def split: prod.splits option.splits)
next
  fix st p q s1
  assume "deleteEnabled lbs \<and>
       blobAccessController lbs = linkedBlobStatter_service st \<and>
       st_linkPath st (st_repository_Name st) D = Inr p \<and>
       bs_readlink (st_blobStore st) p (backend w) = (Inl (PathNotFoundError q), s1)"
  then show "Delete lbs D w = (Some ErrBlobUnknown, \<lparr>backend = s1, calls = calls w @ [Call_Stat D]\<rparr>)"
    by (simp add: Delete_def invoke_def linkedBlobStatter_service_def linkedBlobStatter_Stat_def
          run_def)
qed

text \<open>
  In the in-memory backend: with deletion disabled nothing happens; with deletion enabled
  an unlinked digest is refused after the \<open>Stat\<close>, and a linked one loses its link file
  while the blob stays.
\<close>

theorem Delete_unsupported_or_restat_witness:
  "Delete (mem_lbs False) ''sha256:bb''
      (mem_world [(''repo/_layers/sha256:bb/link'', ''sha256:bb'')] [(''sha256:bb'', ''hello'')])
     = (Some ErrUnsupported,
        mem_world [(''repo/_layers/sha256:bb/link'', ''sha256:bb'')] [(''sha256:bb'', ''hello'')]) \<and>
   fst (Delete (mem_lbs True) ''sha256:zz''
      (mem_world [(''repo/_layers/sha256:bb/link'', ''sha256:bb'')] [(''sha256:bb'', ''hello'')]))
     = Some ErrBlobUnknown \<and>
   calls (snd (Delete (mem_lbs True) ''sha256:zz''
      (mem_world [(''repo/_layers/sha256:bb/link'', ''sha256:bb'')] [(''sha256:bb'', ''hello'')])))
     = [Call_Stat ''sha256:zz''] \<and>
   fst (Delete (mem_lbs True) ''sha256:bb''
      (mem_world [(''repo/_layers/sha256:bb/link'', ''sha256:bb'')] [(''sha256:bb'', ''hello'')]))
     = None \<and>
   calls (snd (Delete (mem_lbs True) ''sha256:bb''
      (mem_world [(''repo/_layers/sha256:bb/link'', ''sha256:bb'')] [(''sha256:bb'', ''hello'')])))
     = [Call_Stat ''sha256:bb'', Call_Clear ''sha256:bb''] \<and>
   mem_files (backend (snd (Delete (mem_lbs True) ''sha256:bb''
      (mem_world [(''repo/_layers/sha256:bb/link'', ''sha256:bb'')] [(''sha256:bb'', ''hello'')]))))
     = [] \<and>
   mem_blobs (backend (snd (Delete (mem_lbs True) ''sha256:bb''
      (mem_world [(''repo/_layers/sha256:bb/link'', ''sha256:bb'')] [(''sha256:bb'', ''hello'')]))))
     = [(''sha256:bb'', ''hello'')]"
proof -
  let ?W = "mem_world [(''repo/_layers/sha256:bb/link'', ''sha256:bb'')] [(''sha256:bb'', ''hello'')]"
  have off: "\<not> deleteEnabled (mem_lbs False)"
    by (simp add: mem_defs)
  from Delete_unsupported_or_restat [of "mem_lbs False" "''sha256:bb''" ?W,
      THEN conjunct1, THEN mp, OF off]
  have disabled: "Delete (mem_lbs False) ''sha256:bb'' ?W = (Some ErrUnsupported, ?W)" .
  have h: "deleteEnabled (mem_lbs True) \<and>
           blobAccessController (mem_lbs True) = linkedBlobStatter_service mem_statter \<and>
           st_linkPath mem_statter (st_repository_Name mem_statter) ''sha256:zz''
             = Inr ''repo/_layers/sha256:zz/link'' \<and>
           bs_readlink (st_blobStore mem_statter) ''repo/_layers/sha256:zz/link'' (backend ?W)
             = (Inl (PathNotFoundError ''repo/_layers/sha256:zz/link''), backend ?W)"
    by (simp add: mem_defs)
  from Delete_unsupported_or_restat [of "mem_lbs True" "''sha256:zz''" ?W,
      THEN conjunct2, THEN conjunct2, THEN conjunct2, THEN spec, THEN spec, THEN spec, THEN spec,
      THEN mp, OF h]
  have absent: "Delete (mem_lbs True) ''sha256:zz'' ?W =
      (Some ErrBlobUnknown, \<lparr>backend = backend ?W, calls = calls ?W @ [Call_Stat ''sha256:zz'']\<rparr>)" .
  have c: "calls ?W = []"
    by (simp add: mem_defs)
  have linked: "fst (Delete (mem_lbs True) ''sha256:bb'' ?W) = None \<and>
     calls (snd (Delete (mem_lbs True) ''sha256:bb'' ?W))
       = [Call_Stat ''sha256:bb'', Call_Clear ''sha256:bb''] \<and>
     mem_files (backend (snd (Delete (mem_lbs True) ''sha256:bb'' ?W))) = [] \<and>
     mem_blobs (backend (snd (Delete (mem_lbs True) ''sha256:bb'' ?W))) = [(''sha256:bb'', ''hello'')]"
    by (simp add: Delete_def linkedBlobStatter_Stat_def linkedBlobStatter_Clear_def invoke_def
          logcall_def mem_defs)
  from disabled absent c linked show ?thesis by simp
qed

subsection \<open>Resume\<close>

lemma Resume_with_path:
  fixes lbs :: "'s linkedBlobStore"
  assumes sp: "pathFor env (uploadStartedAtPathSpec (repository_Name lbs) uploadId) = Inr sp"
  shows
  "(\<forall>q s1. driver_GetContent (blobStore lbs) sp (backend w) = (Inl (PathNotFoundError q), s1) \<longrightarrow>
       fst (Resume env lbs uploadId w) = Inl ErrBlobUploadUnknown) \<and>
   (\<forall>err s1. driver_GetContent (blobStore lbs) sp (backend w) = (Inl err, s1) \<and>
       (\<forall>q. err \<noteq> PathNotFoundError q) \<longrightarrow>
       fst (Resume env lbs uploadId w) = Inl err) \<and>
   (\<forall>content err s1. driver_GetContent (blobStore lbs) sp (backend w) = (Inr content, s1) \<and>
       Parse_RFC3339 env content = Inl err \<longrightarrow>
       fst (Resume env lbs uploadId w) = Inl err) \<and>
   (\<forall>bw. fst (Resume env lbs uploadId w) = Inr bw \<longrightarrow>
       (\<exists>content s1 t. driver_GetContent (blobStore lbs) sp (backend w) = (Inr content, s1) \<and>
          Parse_RFC3339 env content = Inr t \<and> bw_startedAt bw = t \<and> bw_id bw = uploadId)) \<and>
   ((\<forall>s. fst (driver_GetContent (blobStore lbs) sp s) \<noteq> Inl ErrBlobUploadUnknown) \<and>
    (\<forall>content. Parse_RFC3339 env content \<noteq> Inl ErrBlobUploadUnknown) \<and>
    (\<forall>spec. pathFor env spec \<noteq> Inl ErrBlobUploadUnknown) \<and>
    (\<forall>p s. fst (driver_Writer (blobStore lbs) p True s) \<noteq> Inl ErrBlobUploadUnknown) \<longrightarrow>
    (fst (Resume env lbs uploadId w) = Inl ErrBlobUploadUnknown) =
      (\<exists>q s1. driver_GetContent (blobStore lbs) sp (backend w) = (Inl (PathNotFoundError q), s1)))"
proof (intro conjI allI impI)
  fix q s1
  assume "driver_GetContent (blobStore lbs) sp (backend w) = (Inl (PathNotFoundError q), s1)"
  then show "fst (Resume env lbs uploadId w) = Inl ErrBlobUploadUnknown"
    using sp by (simp add: Resume_def invoke_def logcall_def)
next
  fix err s1
  assume "driver_GetContent (blobStore lbs) sp (backend w) = (Inl err, s1) \<and>
       (\<forall>q. err \<noteq> PathNotFoundError q)"
  then show "fst (Resume env lbs uploadId w) = Inl err"
    using sp by (cases err) (simp_all add: Resume_def invoke_def logcall_def)
next
  fix content err s1
  assume "driver_GetContent (blobStore lbs) sp (backend w) = (Inr content, s1) \<and>
       Parse_RFC3339 env content = Inl err"
  then show "fst (Resume env lbs uploadId w) = Inl err"
    using sp by (simp add: Resume_def invoke_def logcall_def)
next
  fix bw
  assume "fst (Resume env lbs uploadId w) = Inr bw"
  then show "\<exists>content s1 t. driver_GetContent (blobStore lbs) sp (backend w) = (Inr content, s1) \<and>
          Parse_RFC3339 env content = Inr t \<and> bw_startedAt bw = t \<and> bw_id bw = uploadId"
    using sp
    by (auto simp: Resume_def newBlobUpload_def invoke_def logcall_def
          split: prod.splits sum.splits error.splits)
next
  assume a: "(\<forall>s. fst (driver_GetContent (blobStore lbs) sp s) \<noteq> Inl ErrBlobUploadUnknown) \<and>
    (\<forall>content. Parse_RFC3339 env content \<noteq> Inl ErrBlobUploadUnknown) \<and>
    (\<forall>spec. pathFor env spec \<noteq> Inl ErrBlobUploadUnknown) \<and>
    (\<forall>p s. fst (driver_Writer (blobStore lbs) p True s) \<noteq> Inl ErrBlobUploadUnknown)"
  obtain r s1 where g: "driver_GetContent (blobStore lbs) sp (backend w) = (r, s1)"
    by (cases "driver_GetContent (blobStore lbs) sp (backend w)")
  from a have g': "r \<noteq> Inl ErrBlobUploadUnknown"
    using g by (metis fst_conv)
  show "(fst (Resume env lbs uploadId w) = Inl ErrBlobUploadUnknown) =
      (\<exists>q s1. driver_GetContent (blobStore lbs) sp (backend w) = (Inl (PathNotFoundError q), s1))"
  proof (cases r)
    case (Inl err)
    then show ?thesis using sp g g'
      by (cases err) (simp_all add: Resume_def invoke_def logcall_def)
  next
    case (Inr content)
    show ?thesis
    proof (cases "Parse_RFC3339 env content")
      case (Inl err)
      then show ?thesis using sp g Inr a
        by (auto simp: Resume_def invoke_def logcall_def)
    next
      case pr: (Inr t)
      show ?thesis
      proof (cases "pathFor env (uploadDataPathSpec (repository_Name lbs) uploadId)")
        case (Inl err)
        then show ?thesis using sp g Inr pr a
          by (auto simp: Resume_def invoke_def logcall_def)
      next
        case pd: (Inr p)
        obtain r2 s2 where wr: "driver_Writer (blobStore lbs) p True s1 = (r2, s2)"
          by (cases "driver_Writer (blobStore lbs) p True s1")
        from a have "r2 \<noteq> Inl ErrBlobUploadUnknown"
          using wr by (metis fst_conv)
        then show ?thesis using sp g Inr pr pd wr
          by (cases r2) (auto simp: Resume_def newBlobUpload_def invoke_def logcall_def)
      qed
    qed
  qed
qed

text \<open>
  Claim C6. When the startedat path of an upload id does not resolve, \<open>Resume\<close> returns
  that error without reading. When it resolves: \<open>Resume\<close> fails with
  \<open>ErrBlobUploadUnknown\<close> when the read of the startedat file reports path-not-found; any
  other read error is returned as it is; an error of parsing the content is returned as
  it is; and a session is returned only when the file was read and its content parsed,
  the session carrying the id and the parsed time. When neither the driver, nor the
  parser, nor \<open>pathFor\<close> hands out \<open>ErrBlobUploadUnknown\<close> itself, that error comes out
  exactly when the read reported path-not-found.
\<close>

theorem Resume_upload_unknown:
  fixes lbs :: "'s linkedBlobStore"
  shows
  "(\<forall>err. pathFor env (uploadStartedAtPathSpec (repository_Name lbs) uploadId) = Inl err \<longrightarrow>
      Resume env lbs uploadId w = (Inl err, logcall (Call_Debug ''(*linkedBlobStore).Resume'') w)) \<and>
   (\<forall>sp. pathFor env (uploadStartedAtPathSpec (repository_Name lbs) uploadId) = Inr sp \<longrightarrow>
   (\<forall>q s1. driver_GetContent (blobStore lbs) sp (backend w) = (Inl (PathNotFoundError q), s1) \<longrightarrow>
       fst (Resume env lbs uploadId w) = Inl ErrBlobUploadUnknown) \<and>
   (\<forall>err s1. driver_GetContent (blobStore lbs) sp (backend w) = (Inl err, s1) \<and>
       (\<forall>q. err \<noteq> PathNotFoundError q) \<longrightarrow>
       fst (Resume env lbs uploadId w) = Inl err) \<and>
   (\<forall>content err s1. driver_GetContent (blobStore lbs) sp (backend w) = (Inr content, s1) \<and>
       Parse_RFC3339 env content = Inl err \<longrightarrow>
       fst (Resume env lbs uploadId w) = Inl err) \<and>
   (\<forall>bw. fst (Resume env lbs uploadId w) = Inr bw \<longrightarrow>
       (\<exists>content s1 t. driver_GetContent (blobStore lbs) sp (backend w) = (Inr content, s1) \<and>
          Parse_RFC3339 env content = Inr t \<and> bw_startedAt bw = t \<and> bw_id bw = uploadId)) \<and>
   ((\<forall>s. fst (driver_GetContent (blobStore lbs) sp s) \<noteq> Inl ErrBlobUploadUnknown) \<and>
    (\<forall>content. Parse_RFC3339 env content \<noteq> Inl ErrBlobUploadUnknown) \<and>
    (\<forall>spec. pathFor env spec \<noteq> Inl ErrBlobUploadUnknown) \<and>
    (\<forall>p s. fst (driver_Writer (blobStore lbs) p True s) \<noteq> Inl ErrBlobUploadUnknown) \<longrightarrow>
    (fst (Resume env lbs uploadId w) = Inl ErrBlobUploadUnknown) =
      (\<exists>q s1. driver_GetContent (blobStore lbs) sp (backend w) = (Inl (PathNotFoundError q), s1))))"
proof (intro conjI)
  show "\<forall>err. pathFor env (uploadStartedAtPathSpec (repository_Name lbs) uploadId) = Inl err \<longrightarrow>
      Resume env lbs uploadId w = (Inl err, logcall (Call_Debug ''(*linkedBlobStore).Resume'') w)"
    by (simp add: Resume_def Let_def)
  show "\<forall>sp. pathFor env (uploadStartedAtPathSpec (repository_Name lbs) uploadId) = Inr sp \<longrightarrow>
   (\<forall>q s1. driver_GetContent (blobStore lbs) sp (backend w) = (Inl (PathNotFoundError q), s1) \<longrightarrow>
       fst (Resume env lbs uploadId w) = Inl ErrBlobUploadUnknown) \<and>
   (\<forall>err s1. driver_GetContent (blobStore lbs) sp (backend w) = (Inl err, s1) \<and>
       (\<forall>q. err \<noteq> PathNotFoundError q) \<longrightarrow>
       fst (Resume env lbs uploadId w) = Inl err) \<and>
   (\<forall>content err s1. driver_GetContent (blobStore lbs) sp (backend w) = (Inr content, s1) \<and>
       Parse_RFC3339 env content = Inl err \<longrightarrow>
       fst (Resume env lbs uploadId w) = Inl err) \<and>
   (\<forall>bw. fst (Resume env lbs uploadId w) = Inr bw \<longrightarrow>
       (\<exists>content s1 t. driver_GetContent (blobStore lbs) sp (backend w) = (Inr content, s1) \<and>
          Parse_RFC3339 env content = Inr t \<and> bw_startedAt bw = t \<and> bw_id bw = uploadId)) \<and>
   ((\<forall>s. fst (driver_GetContent (blobStore lbs) sp s) \<noteq> Inl ErrBlobUploadUnknown) \<and>
    (\<forall>content. Parse_RFC3339 env content \<noteq> Inl ErrBlobUploadUnknown) \<and>
    (\<forall>spec. pathFor env spec \<noteq> Inl ErrBlobUploadUnknown) \<and>
    (\<forall>p s. fst (driver_Writer (blobStore lbs) p True s) \<noteq> Inl ErrBlobUploadUnknown) \<longrightarrow>
    (fst (Resume env lbs uploadId w) = Inl ErrBlobUploadUnknown) =
      (\<exists>q s1. driver_GetContent (blobStore lbs) sp (backend w) = (Inl (PathNotFoundError q), s1)))"
    by (intro allI impI) (rule Resume_with_path)
qed

text \<open>
  In the in-memory backend: an id with no startedat file is unknown, an id whose startedat
  file does not parse fails with the parser's error, and an id with a well-formed startedat
  file is resumed with the recorded time.
\<close>

theorem Resume_upload_unknown_witness:
  "fst (Resume mem_env (mem_lbs False) ''id-9''
      (mem_world [(''repo/_uploads/id-1/startedat'', ''2024-01-01T00:00:00Z''),
                  (''repo/_uploads/id-2/startedat'', ''yesterday'')] []))
     = Inl ErrBlobUploadUnknown \<and>
   fst (Resume mem_env (mem_lbs False) ''id-2''
      (mem_world [(''repo/_uploads/id-1/startedat'', ''2024-01-01T00:00:00Z''),
                  (''repo/_uploads/id-2/startedat'', ''yesterday'')] []))
     = Inl (OtherError ''parsing time'') \<and>
   fst (Resume mem_env (mem_lbs False) ''id-1''
      (mem_world [(''repo/_uploads/id-1/startedat'', ''2024-01-01T00:00:00Z''),
                  (''repo/_uploads/id-2/startedat'', ''yesterday'')] []))
     = Inr \<lparr>bw_id = ''id-1'', bw_startedAt = 1704067200, bw_fileWriter = 0,
            bw_path = ''repo/_uploads/id-1/data'', bw_resumableDigestEnabled = False\<rparr>"
proof -
  let ?W = "mem_world [(''repo/_uploads/id-1/startedat'', ''2024-01-01T00:00:00Z''),
                  (''repo/_uploads/id-2/startedat'', ''yesterday'')] []"
  have hp: "pathFor mem_env (uploadStartedAtPathSpec (repository_Name (mem_lbs False)) ''id-9'')
              = Inr ''repo/_uploads/id-9/startedat''"
    by (simp add: mem_defs)
  have hg: "driver_GetContent (blobStore (mem_lbs False)) ''repo/_uploads/id-9/startedat'' (backend ?W)
              = (Inl (PathNotFoundError ''repo/_uploads/id-9/startedat''), backend ?W)"
    by (simp add: mem_defs)
  from Resume_upload_unknown [of mem_env "mem_lbs False" "''id-9''" ?W,
      THEN conjunct2, THEN spec, THEN mp, OF hp, THEN conjunct1, THEN spec, THEN spec, THEN mp, OF hg]
  have unknown: "fst (Resume mem_env (mem_lbs False) ''id-9'' ?W) = Inl ErrBlobUploadUnknown" .
  have hp2: "pathFor mem_env (uploadStartedAtPathSpec (repository_Name (mem_lbs False)) ''id-2'')
              = Inr ''repo/_uploads/id-2/startedat''"
    by (simp add: mem_defs)
  have hg2: "driver_GetContent (blobStore (mem_lbs False)) ''repo/_uploads/id-2/startedat'' (backend ?W)
              = (Inr ''yesterday'', backend ?W) \<and>
            Parse_RFC3339 mem_env ''yesterday'' = Inl (OtherError ''parsing time'')"
    by (simp add: mem_defs)
  from Resume_upload_unknown [of mem_env "mem_lbs False" "''id-2''" ?W,
      THEN conjunct2, THEN spec, THEN mp, OF hp2, THEN conjunct2, THEN conjunct2, THEN conjunct1,
      THEN spec, THEN spec, THEN spec, THEN mp, OF hg2]
  have unparsed: "fst (Resume mem_env (mem_lbs False) ''id-2'' ?W) = Inl (OtherError ''parsing time'')" .
  have resumed: "fst (Resume mem_env (mem_lbs False) ''id-1'' ?W)
     = Inr \<lparr>bw_id = ''id-1'', bw_startedAt = 1704067200, bw_fileWriter = 0,
            bw_path = ''repo/_uploads/id-1/data'', bw_resumableDigestEnabled = False\<rparr>"
    by (simp add: Resume_def newBlobUpload_def invoke_def logcall_def mem_defs)
  from unknown unparsed resumed show ?thesis by (intro conjI)
qed

subsection \<open>linkBlob\<close>

text \<open>
  The loop of \<open>linkBlob\<close>, started with any set of seen digests: the calls it adds are link
  calls only, one for each entry of a list \<open>ls\<close> of digests with their link paths; the
  digests are pairwise different, taken from the input and not seen before; each call
  writes the canonical digest. When the loop returns no error, \<open>ls\<close> holds every digest of
  the input that was not seen before.
\<close>

lemma linkBlob_loop_calls:
  fixes lbs :: "'s linkedBlobStore"
  shows "\<exists>ls. calls (snd (linkBlob_loop lbs canonical seen dgsts w)) =
            calls w @ map (\<lambda>l. Call_link (snd l) (Digest canonical)) ls \<and>
          distinct (map fst ls) \<and> fst ` set ls \<subseteq> set dgsts - seen \<and>
          (\<forall>l \<in> set ls. linkPath lbs (repository_Name lbs) (fst l) = Inr (snd l)) \<and>
          (fst (linkBlob_loop lbs canonical seen dgsts w) = None \<longrightarrow>
             fst ` set ls = set dgsts - seen)"
proof (induction dgsts arbitrary: seen w)
  case Nil
  show ?case by simp
next
  case (Cons dgst rest)
  show ?case
  proof (cases "dgst \<in> seen")
    case True
    from Cons.IH [of seen w] obtain ls where
      "calls (snd (linkBlob_loop lbs canonical seen rest w)) =
            calls w @ map (\<lambda>l. Call_link (snd l) (Digest canonical)) ls \<and>
       distinct (map fst ls) \<and> fst ` set ls \<subseteq> set rest - seen \<and>
       (\<forall>l \<in> set ls. linkPath lbs (repository_Name lbs) (fst l) = Inr (snd l)) \<and>
       (fst (linkBlob_loop lbs canonical seen rest w) = None \<longrightarrow> fst ` set ls = set rest - seen)"
      ..
    with True show ?thesis
      by (intro exI [of _ ls]) auto
  next
    case False
    show ?thesis
    proof (cases "linkPath lbs (repository_Name lbs) dgst")
      case (Inl err)
      with False show ?thesis
        by (intro exI [of _ "[]"]) simp
    next
      case (Inr blobLinkPath)
      obtain r s1 where l: "bs_link (blobStore lbs) blobLinkPath (Digest canonical) (backend w) = (r, s1)"
        by (cases "bs_link (blobStore lbs) blobLinkPath (Digest canonical) (backend w)")
      let ?w1 = "\<lparr>backend = s1, calls = calls w @ [Call_link blobLinkPath (Digest canonical)]\<rparr>"
      show ?thesis
      proof (cases r)
        case (Some err)
        with False Inr l show ?thesis
          by (intro exI [of _ "[(dgst, blobLinkPath)]"]) (simp add: invoke_def)
      next
        case None
        from Cons.IH [of "insert dgst seen" ?w1] obtain ls where ls:
          "calls (snd (linkBlob_loop lbs canonical (insert dgst seen) rest ?w1)) =
            calls ?w1 @ map (\<lambda>l. Call_link (snd l) (Digest canonical)) ls \<and>
           distinct (map fst ls) \<and> fst ` set ls \<subseteq> set rest - insert dgst seen \<and>
           (\<forall>l \<in> set ls. linkPath lbs (repository_Name lbs) (fst l) = Inr (snd l)) \<and>
           (fst (linkBlob_loop lbs canonical (insert dgst seen) rest ?w1) = None
             \<longrightarrow> fst ` set ls = set rest - insert dgst seen)"
          ..
        have step: "linkBlob_loop lbs canonical seen (dgst # rest) w =
             linkBlob_loop lbs canonical (insert dgst seen) rest ?w1"
          using False Inr l None by (simp add: invoke_def)
        show ?thesis
          unfolding step using ls False Inr
          by (intro exI [of _ "(dgst, blobLinkPath) # ls"]) auto
      qed
    qed
  qed
qed

text \<open>
  Claim C10. The calls \<open>linkBlob\<close> adds are link calls for pairwise different digests out
  of the canonical digest and the aliases, each at the link path of its digest and each
  with the canonical digest as content; so no alias link points to the alias, and a
  digest that occurs several times is linked once. When \<open>linkBlob\<close> returns no error,
  every one of these digests has been linked.
\<close>

theorem linkBlob_links_canonical_once:
  fixes lbs :: "'s linkedBlobStore"
  shows "\<exists>ls. calls (snd (linkBlob lbs canonical aliases w)) =
            calls w @ map (\<lambda>l. Call_link (snd l) (Digest canonical)) ls \<and>
          distinct (map fst ls) \<and> fst ` set ls \<subseteq> set (Digest canonical # aliases) \<and>
          (\<forall>l \<in> set ls. linkPath lbs (repository_Name lbs) (fst l) = Inr (snd l)) \<and>
          (fst (linkBlob lbs canonical aliases w) = None \<longrightarrow>
             fst ` set ls = set (Digest canonical # aliases))"
  using linkBlob_loop_calls [of lbs canonical "{}" "Digest canonical # aliases" w]
  unfolding linkBlob_def by simp

text \<open>
  In the in-memory backend: linking \<open>sha256:bb\<close> with the aliases \<open>sha512:aa\<close>, \<open>sha256:bb\<close>
  and \<open>sha512:aa\<close> again writes two link files, both holding \<open>sha256:bb\<close>.
\<close>

theorem linkBlob_links_canonical_once_witness:
  "linkBlob (mem_lbs False) \<lparr>MediaType = '''', Digest = ''sha256:bb'', Size = 5\<rparr>
      [''sha512:aa'', ''sha256:bb'', ''sha512:aa''] (mem_world [] [])
     = (None, \<lparr>backend = \<lparr>mem_files = [(''repo/_layers/sha512:aa/link'', ''sha256:bb''),
                                         (''repo/_layers/sha256:bb/link'', ''sha256:bb'')],
                           mem_blobs = [], mem_ids = [''id-1'', ''id-2''],
                           mem_clock = 1704070800, mem_ingested = []\<rparr>,
               calls = [Call_link ''repo/_layers/sha256:bb/link'' ''sha256:bb'',
                        Call_link ''repo/_layers/sha512:aa/link'' ''sha256:bb'']\<rparr>)"
  using linkBlob_links_canonical_once [of "mem_lbs False"
      "\<lparr>MediaType = '''', Digest = ''sha256:bb'', Size = 5\<rparr>"
      "[''sha512:aa'', ''sha256:bb'', ''sha512:aa'']" "mem_world [] []"]
  by (simp add: linkBlob_def invoke_def mem_defs)

subsection \<open>mount\<close>

lemma linkBlob_calls:
  fixes lbs :: "'s linkedBlobStore"
  shows "\<exists>ls :: (digest \<times> path) list. calls (snd (linkBlob lbs canonical aliases w)) =
            calls w @ map (\<lambda>l. Call_link (snd l) (Digest canonical)) ls"
proof -
  from linkBlob_loop_calls [of lbs canonical "{}" "Digest canonical # aliases" w]
  obtain ls where
    "calls (snd (linkBlob_loop lbs canonical {} (Digest canonical # aliases) w)) =
            calls w @ map (\<lambda>l. Call_link (snd l) (Digest canonical)) ls \<and>
     distinct (map fst ls) \<and> fst ` set ls \<subseteq> set (Digest canonical # aliases) - {} \<and>
     (\<forall>l \<in> set ls. linkPath lbs (repository_Name lbs) (fst l) = Inr (snd l)) \<and>
     (fst (linkBlob_loop lbs canonical {} (Digest canonical # aliases) w) = None \<longrightarrow>
        fst ` set ls = set (Digest canonical # aliases) - {})"
    ..
  then have "calls (snd (linkBlob lbs canonical aliases w)) =
            calls w @ map (\<lambda>l. Call_link (snd l) (Digest canonical)) ls"
    unfolding linkBlob_def by (rule conjunct1)
  then show ?thesis by (rule exI [of _ ls])
qed

lemma mount_with_stat:
  fixes lbs :: "'s linkedBlobStore"
  shows "mount lbs sourceRepo dgst (Some stat) w =
     ((\<lparr>MediaType = ''application/octet-stream'', Digest = dgst, Size = Size stat\<rparr>,
       fst (linkBlob lbs \<lparr>MediaType = ''application/octet-stream'', Digest = dgst, Size = Size stat\<rparr> [] w)),
      snd (linkBlob lbs \<lparr>MediaType = ''application/octet-stream'', Digest = dgst, Size = Size stat\<rparr> [] w))"
  by (simp add: mount_def Let_def split: prod.splits)

lemma mount_without_stat:
  fixes lbs :: "'s linkedBlobStore"
  assumes "registry_Repository lbs sourceRepo (backend w) = (None, s1)"
    and "source_Stat lbs sourceRepo dgst s1 = (Inr stat, s2)"
  shows "mount lbs sourceRepo dgst None w =
     ((\<lparr>MediaType = ''application/octet-stream'', Digest = dgst, Size = Size stat\<rparr>,
       fst (linkBlob lbs \<lparr>MediaType = ''application/octet-stream'', Digest = dgst, Size = Size stat\<rparr> []
              \<lparr>backend = s2,
               calls = calls w @ [Call_Repository sourceRepo, Call_source_Stat sourceRepo dgst]\<rparr>)),
      snd (linkBlob lbs \<lparr>MediaType = ''application/octet-stream'', Digest = dgst, Size = Size stat\<rparr> []
              \<lparr>backend = s2,
               calls = calls w @ [Call_Repository sourceRepo, Call_source_Stat sourceRepo dgst]\<rparr>))"
  using assms by (simp add: mount_def Let_def invoke_def split: prod.splits)

lemma mount_repository_error:
  fixes lbs :: "'s linkedBlobStore"
  assumes "registry_Repository lbs sourceRepo (backend w) = (Some err, s1)"
  shows "snd (fst (mount lbs sourceRepo dgst None w)) = Some err"
    and "snd (mount lbs sourceRepo dgst None w) =
           \<lparr>backend = s1, calls = calls w @ [Call_Repository sourceRepo]\<rparr>"
  using assms by (simp_all add: mount_def Let_def invoke_def)

lemma mount_source_stat_error:
  fixes lbs :: "'s linkedBlobStore"
  assumes "registry_Repository lbs sourceRepo (backend w) = (None, s1)"
    and "source_Stat lbs sourceRepo dgst s1 = (Inl err, s2)"
  shows "snd (fst (mount lbs sourceRepo dgst None w)) = Some err"
    and "snd (mount lbs sourceRepo dgst None w) =
           \<lparr>backend = s2, calls = calls w @ [Call_Repository sourceRepo, Call_source_Stat sourceRepo dgst]\<rparr>"
  using assms by (simp_all add: mount_def Let_def invoke_def)

text \<open>A successful \<open>mount\<close> went through one of its two branches.\<close>

lemma mount_success:
  fixes lbs :: "'s linkedBlobStore"
  assumes a: "mount lbs sourceRepo dgst sourceStat w = ((desc, None), w1)"
  shows "(\<exists>stat. sourceStat = Some stat \<and>
            desc = \<lparr>MediaType = ''application/octet-stream'', Digest = dgst, Size = Size stat\<rparr> \<and>
            w1 = snd (linkBlob lbs desc [] w)) \<or>
         (sourceStat = None \<and>
          (\<exists>s1 stat s2. registry_Repository lbs sourceRepo (backend w) = (None, s1) \<and>
             source_Stat lbs sourceRepo dgst s1 = (Inr stat, s2) \<and>
             desc = \<lparr>MediaType = ''application/octet-stream'', Digest = dgst, Size = Size stat\<rparr> \<and>
             w1 = snd (linkBlob lbs desc []
                  \<lparr>backend = s2,
                   calls = calls w @ [Call_Repository sourceRepo, Call_source_Stat sourceRepo dgst]\<rparr>)))"
proof (cases sourceStat)
  case (Some stat)
  from a have "desc = \<lparr>MediaType = ''application/octet-stream'', Digest = dgst, Size = Size stat\<rparr>"
    unfolding Some mount_with_stat by auto
  moreover from a have "w1 = snd (linkBlob lbs
      \<lparr>MediaType = ''application/octet-stream'', Digest = dgst, Size = Size stat\<rparr> [] w)"
    unfolding Some mount_with_stat by auto
  ultimately show ?thesis using Some by simp
next
  case None
  obtain r s1 where rr: "registry_Repository lbs sourceRepo (backend w) = (r, s1)"
    by (cases "registry_Repository lbs sourceRepo (backend w)")
  obtain r2 s2 where ss: "source_Stat lbs sourceRepo dgst s1 = (r2, s2)"
    by (cases "source_Stat lbs sourceRepo dgst s1")
  show ?thesis
  proof (cases r)
    case (Some err)
    from mount_repository_error(1) [of lbs sourceRepo w err s1 dgst] rr Some a None
    show ?thesis by simp
  next
    case rn: None
    show ?thesis
    proof (cases r2)
      case (Inl err)
      from mount_source_stat_error(1) [of lbs sourceRepo w s1 dgst err s2] rr rn ss Inl a None
      show ?thesis by simp
    next
      case (Inr stat)
      have eq: "mount lbs sourceRepo dgst None w =
        ((\<lparr>MediaType = ''application/octet-stream'', Digest = dgst, Size = Size stat\<rparr>,
          fst (linkBlob lbs \<lparr>MediaType = ''application/octet-stream'', Digest = dgst, Size = Size stat\<rparr> []
              \<lparr>backend = s2,
               calls = calls w @ [Call_Repository sourceRepo, Call_source_Stat sourceRepo dgst]\<rparr>)),
         snd (linkBlob lbs \<lparr>MediaType = ''application/octet-stream'', Digest = dgst, Size = Size stat\<rparr> []
              \<lparr>backend = s2,
               calls = calls w @ [Call_Repository sourceRepo, Call_source_Stat sourceRepo dgst]\<rparr>))"
        using rr rn ss Inr by (simp add: mount_without_stat)
      from a have d: "desc = \<lparr>MediaType = ''application/octet-stream'', Digest = dgst, Size = Size stat\<rparr>"
        unfolding None eq by auto
      from a have "w1 = snd (linkBlob lbs
          \<lparr>MediaType = ''application/octet-stream'', Digest = dgst, Size = Size stat\<rparr> []
              \<lparr>backend = s2,
               calls = calls w @ [Call_Repository sourceRepo, Call_source_Stat sourceRepo dgst]\<rparr>)"
        unfolding None eq by auto
      with d None rr rn ss Inr show ?thesis by simp
    qed
  qed
qed

text \<open>
  Claim C9. Whenever \<open>mount\<close> succeeds, with a descriptor supplied or with the descriptor
  looked up in the source repository, the descriptor it links and returns has the media
  type \<open>application/octet-stream\<close>, the requested digest, and the size of the source
  descriptor. The media type of the source descriptor has no influence on what \<open>mount\<close>
  does.
\<close>

theorem mount_generic_media_type:
  fixes lbs :: "'s linkedBlobStore"
  shows
  "(\<forall>desc w1. mount lbs sourceRepo dgst sourceStat w = ((desc, None), w1) \<longrightarrow>
      MediaType desc = ''application/octet-stream'' \<and> Digest desc = dgst \<and>
      ((\<exists>stat. sourceStat = Some stat \<and> Size desc = Size stat \<and>
          w1 = snd (linkBlob lbs desc [] w)) \<or>
       (sourceStat = None \<and>
        (\<exists>s1 stat s2. registry_Repository lbs sourceRepo (backend w) = (None, s1) \<and>
           source_Stat lbs sourceRepo dgst s1 = (Inr stat, s2) \<and> Size desc = Size stat \<and>
           w1 = snd (linkBlob lbs desc []
                  \<lparr>backend = s2,
                   calls = calls w @ [Call_Repository sourceRepo, Call_source_Stat sourceRepo dgst]\<rparr>))))) \<and>
   (\<forall>stat m. mount lbs sourceRepo dgst (Some (stat\<lparr>MediaType := m\<rparr>)) w =
      mount lbs sourceRepo dgst (Some stat) w)"
proof (intro conjI allI impI)
  fix desc w1
  assume a: "mount lbs sourceRepo dgst sourceStat w = ((desc, None), w1)"
  from mount_success [OF a] show "MediaType desc = ''application/octet-stream''"
    by (elim disjE exE conjE) simp_all
  from mount_success [OF a] show "Digest desc = dgst"
    by (elim disjE exE conjE) simp_all
  from mount_success [OF a]
  show "(\<exists>stat. sourceStat = Some stat \<and> Size desc = Size stat \<and>
          w1 = snd (linkBlob lbs desc [] w)) \<or>
       (sourceStat = None \<and>
        (\<exists>s1 stat s2. registry_Repository lbs sourceRepo (backend w) = (None, s1) \<and>
           source_Stat lbs sourceRepo dgst s1 = (Inr stat, s2) \<and> Size desc = Size stat \<and>
           w1 = snd (linkBlob lbs desc []
                  \<lparr>backend = s2,
                   calls = calls w @ [Call_Repository sourceRepo, Call_source_Stat sourceRepo dgst]\<rparr>)))"
  proof (elim disjE exE conjE)
    fix stat
    assume "sourceStat = Some stat"
      "desc = \<lparr>MediaType = ''application/octet-stream'', Digest = dgst, Size = Size stat\<rparr>"
      "w1 = snd (linkBlob lbs desc [] w)"
    then have "sourceStat = Some stat \<and> Size desc = Size stat \<and> w1 = snd (linkBlob lbs desc [] w)"
      by simp
    then show ?thesis by (intro disjI1 exI [of _ stat])
  next
    fix s1 stat s2
    assume "sourceStat = None" "registry_Repository lbs sourceRepo (backend w) = (None, s1)"
      "source_Stat lbs sourceRepo dgst s1 = (Inr stat, s2)"
      "desc = \<lparr>MediaType = ''application/octet-stream'', Digest = dgst, Size = Size stat\<rparr>"
      "w1 = snd (linkBlob lbs desc []
                  \<lparr>backend = s2,
                   calls = calls w @ [Call_Repository sourceRepo, Call_source_Stat sourceRepo dgst]\<rparr>)"
    then have "registry_Repository lbs sourceRepo (backend w) = (None, s1) \<and>
           source_Stat lbs sourceRepo dgst s1 = (Inr stat, s2) \<and> Size desc = Size stat \<and>
           w1 = snd (linkBlob lbs desc []
                  \<lparr>backend = s2,
                   calls = calls w @ [Call_Repository sourceRepo, Call_source_Stat sourceRepo dgst]\<rparr>)"
      by simp
    with \<open>sourceStat = None\<close> show ?thesis
      by (intro disjI2 conjI exI [of _ s1] exI [of _ stat] exI [of _ s2]) simp_all
  qed
next
  fix stat m
  show "mount lbs sourceRepo dgst (Some (stat\<lparr>MediaType := m\<rparr>)) w =
      mount lbs sourceRepo dgst (Some stat) w"
    by (simp add: mount_with_stat)
qed

text \<open>
  In the in-memory backend, where the source repository reports the media type
  \<open>application/vnd.source.layer\<close> for the blob \<open>sha256:bb\<close> of five bytes: the mount
  without a descriptor and the mount with a supplied one both succeed, link the digest,
  and give the generic type.
\<close>

theorem mount_generic_media_type_witness:
  "mount (mem_lbs False) \<lparr>ref_Name = ''other'', ref_Digest = ''sha256:bb''\<rparr> ''sha256:bb'' None
      (mem_world [] [(''sha256:bb'', ''hello'')])
     = ((\<lparr>MediaType = ''application/octet-stream'', Digest = ''sha256:bb'', Size = 5\<rparr>, None),
        \<lparr>backend = \<lparr>mem_files = [(''repo/_layers/sha256:bb/link'', ''sha256:bb'')],
                     mem_blobs = [(''sha256:bb'', ''hello'')], mem_ids = [''id-1'', ''id-2''],
                     mem_clock = 1704070800, mem_ingested = []\<rparr>,
         calls = [Call_Repository \<lparr>ref_Name = ''other'', ref_Digest = ''sha256:bb''\<rparr>,
                  Call_source_Stat \<lparr>ref_Name = ''other'', ref_Digest = ''sha256:bb''\<rparr> ''sha256:bb'',
                  Call_link ''repo/_layers/sha256:bb/link'' ''sha256:bb'']\<rparr>) \<and>
   fst (mount (mem_lbs False) \<lparr>ref_Name = ''other'', ref_Digest = ''sha256:bb''\<rparr> ''sha256:bb''
      (Some \<lparr>MediaType = ''application/vnd.source.layer'', Digest = ''sha256:bb'', Size = 7\<rparr>)
      (mem_world [] [(''sha256:bb'', ''hello'')]))
     = (\<lparr>MediaType = ''application/octet-stream'', Digest = ''sha256:bb'', Size = 7\<rparr>, None)"
proof -
  have e: "mount (mem_lbs False) \<lparr>ref_Name = ''other'', ref_Digest = ''sha256:bb''\<rparr> ''sha256:bb'' None
      (mem_world [] [(''sha256:bb'', ''hello'')])
     = ((\<lparr>MediaType = ''application/octet-stream'', Digest = ''sha256:bb'', Size = 5\<rparr>, None),
        \<lparr>backend = \<lparr>mem_files = [(''repo/_layers/sha256:bb/link'', ''sha256:bb'')],
                     mem_blobs = [(''sha256:bb'', ''hello'')], mem_ids = [''id-1'', ''id-2''],
                     mem_clock = 1704070800, mem_ingested = []\<rparr>,
         calls = [Call_Repository \<lparr>ref_Name = ''other'', ref_Digest = ''sha256:bb''\<rparr>,
                  Call_source_Stat \<lparr>ref_Name = ''other'', ref_Digest = ''sha256:bb''\<rparr> ''sha256:bb'',
                  Call_link ''repo/_layers/sha256:bb/link'' ''sha256:bb'']\<rparr>)"
    by (simp add: mount_def linkBlob_def invoke_def mem_defs)
  have f: "\<exists>w1. mount (mem_lbs False) \<lparr>ref_Name = ''other'', ref_Digest = ''sha256:bb''\<rparr> ''sha256:bb''
      (Some \<lparr>MediaType = ''application/vnd.source.layer'', Digest = ''sha256:bb'', Size = 7\<rparr>)
      (mem_world [] [(''sha256:bb'', ''hello'')])
     = ((\<lparr>MediaType = ''application/octet-stream'', Digest = ''sha256:bb'', Size = 7\<rparr>, None), w1)"
    by (simp add: mount_def linkBlob_def invoke_def mem_defs)
  then obtain w1 where f1: "mount (mem_lbs False) \<lparr>ref_Name = ''other'', ref_Digest = ''sha256:bb''\<rparr> ''sha256:bb''
      (Some \<lparr>MediaType = ''application/vnd.source.layer'', Digest = ''sha256:bb'', Size = 7\<rparr>)
      (mem_world [] [(''sha256:bb'', ''hello'')])
     = ((\<lparr>MediaType = ''application/octet-stream'', Digest = ''sha256:bb'', Size = 7\<rparr>, None), w1)"
    ..
  from mount_generic_media_type [THEN conjunct1, rule_format, OF f1]
  have g: "MediaType \<lparr>MediaType = ''application/octet-stream'', Digest = ''sha256:bb'', Size = 7\<rparr>
          = ''application/octet-stream''"
    by (rule conjunct1)
  from e f1 g show ?thesis by simp
qed

subsection \<open>Create\<close>

lemma linkBlob_no_session_call:
  fixes lbs :: "'s linkedBlobStore"
  shows "\<exists>cs. calls (snd (linkBlob lbs canonical aliases w)) = calls w @ cs \<and>
           filter session_call cs = []"
proof -
  from linkBlob_calls [of lbs canonical aliases w]
  obtain ls :: "(digest \<times> path) list" where
    l: "calls (snd (linkBlob lbs canonical aliases w)) =
            calls w @ map (\<lambda>l. Call_link (snd l) (Digest canonical)) ls"
    ..
  have "filter session_call (map (\<lambda>l. Call_link (snd l) (Digest canonical)) ls) = []"
    by (induction ls) simp_all
  with l show ?thesis
    by (intro exI [of _ "map (\<lambda>l. Call_link (snd l) (Digest canonical)) ls"]) simp
qed

lemma mount_no_session_call:
  fixes lbs :: "'s linkedBlobStore"
  shows "\<exists>cs. calls (snd (mount lbs sourceRepo dgst sourceStat w)) = calls w @ cs \<and>
           filter session_call cs = []"
proof (cases sourceStat)
  case (Some stat)
  from linkBlob_no_session_call
    [of lbs "\<lparr>MediaType = ''application/octet-stream'', Digest = dgst, Size = Size stat\<rparr>" "[]" w]
  show ?thesis unfolding Some mount_with_stat by simp
next
  case None
  obtain r s1 where rr: "registry_Repository lbs sourceRepo (backend w) = (r, s1)"
    by (cases "registry_Repository lbs sourceRepo (backend w)")
  obtain r2 s2 where ss: "source_Stat lbs sourceRepo dgst s1 = (r2, s2)"
    by (cases "source_Stat lbs sourceRepo dgst s1")
  show ?thesis
  proof (cases r)
    case (Some err)
    with rr have "calls (snd (mount lbs sourceRepo dgst None w)) = calls w @ [Call_Repository sourceRepo]"
      by (simp add: mount_repository_error(2))
    then show ?thesis unfolding None
      by (intro exI [of _ "[Call_Repository sourceRepo]"]) simp
  next
    case rn: None
    show ?thesis
    proof (cases r2)
      case (Inl err)
      with rr rn ss have "calls (snd (mount lbs sourceRepo dgst None w)) =
          calls w @ [Call_Repository sourceRepo, Call_source_Stat sourceRepo dgst]"
        by (simp add: mount_source_stat_error(2))
      then show ?thesis unfolding None
        by (intro exI [of _ "[Call_Repository sourceRepo, Call_source_Stat sourceRepo dgst]"]) simp
    next
      case (Inr stat)
      let ?d = "\<lparr>MediaType = ''application/octet-stream'', Digest = dgst, Size = Size stat\<rparr>"
      let ?w2 = "\<lparr>backend = s2,
               calls = calls w @ [Call_Repository sourceRepo, Call_source_Stat sourceRepo dgst]\<rparr>"
      have eq: "snd (mount lbs sourceRepo dgst None w) = snd (linkBlob lbs ?d [] ?w2)"
        using rr rn ss Inr by (simp add: mount_without_stat)
      from linkBlob_no_session_call [of lbs ?d "[]" ?w2]
      obtain cs where cs: "calls (snd (linkBlob lbs ?d [] ?w2)) = calls ?w2 @ cs \<and>
           filter session_call cs = []"
        ..
      then show ?thesis unfolding None eq
        by (intro exI [of _ "[Call_Repository sourceRepo, Call_source_Stat sourceRepo dgst] @ cs"]) simp
    qed
  qed
qed

lemma apply_options_WithMountFrom:
  "apply_options [WithMountFrom ref] zero_CreateOptions =
     Inr \<lparr>ShouldMount = True, From = Some ref, Stat_opt = None\<rparr>"
  by (simp add: WithMountFrom_def zero_CreateOptions_def)

text \<open>
  Claim C5. When the options, once applied, ask for a mount from a reference, \<open>Create\<close>
  runs \<open>mount\<close> right after its debug line; when that mount succeeds \<open>Create\<close> returns no
  session but the error value \<open>ErrBlobMounted\<close> with the reference and the descriptor of
  the mount, in the world the mount left: among the calls made there is no draw of an
  id, no reading of the clock, no file written and no writer opened. The option
  \<open>WithMountFrom\<close> alone gives such options.
\<close>

theorem Create_mount_short_circuit:
  fixes lbs :: "'s linkedBlobStore"
  shows
  "(\<forall>opts ref desc w1.
      apply_options options zero_CreateOptions = Inr opts \<and> ShouldMount opts \<and>
      From opts = Some ref \<and>
      mount lbs ref (ref_Digest ref) (Stat_opt opts)
        (logcall (Call_Debug ''(*linkedBlobStore).Create'') w) = ((desc, None), w1) \<longrightarrow>
      Create env lbs options w = (Inl (ErrBlobMounted ref desc), w1) \<and>
      MediaType desc = ''application/octet-stream'' \<and> Digest desc = ref_Digest ref \<and>
      (\<exists>cs. calls w1 = calls w @ Call_Debug ''(*linkedBlobStore).Create'' # cs \<and>
            filter session_call cs = [])) \<and>
   (\<forall>ref. apply_options [WithMountFrom ref] zero_CreateOptions =
      Inr \<lparr>ShouldMount = True, From = Some ref, Stat_opt = None\<rparr>)"
proof (intro conjI allI impI)
  fix opts ref desc w1
  assume a: "apply_options options zero_CreateOptions = Inr opts \<and> ShouldMount opts \<and>
      From opts = Some ref \<and>
      mount lbs ref (ref_Digest ref) (Stat_opt opts)
        (logcall (Call_Debug ''(*linkedBlobStore).Create'') w) = ((desc, None), w1)"
  then have m: "mount lbs ref (ref_Digest ref) (Stat_opt opts)
        (logcall (Call_Debug ''(*linkedBlobStore).Create'') w) = ((desc, None), w1)"
    by (elim conjE)
  from a show "Create env lbs options w = (Inl (ErrBlobMounted ref desc), w1)"
    by (simp add: Create_def Let_def)
  from mount_success [OF m] show "MediaType desc = ''application/octet-stream''"
    by (elim disjE exE conjE) simp_all
  from mount_success [OF m] show "Digest desc = ref_Digest ref"
    by (elim disjE exE conjE) simp_all
  from mount_no_session_call [of lbs ref "ref_Digest ref" "Stat_opt opts"
      "logcall (Call_Debug ''(*linkedBlobStore).Create'') w"]
  obtain cs where "calls (snd (mount lbs ref (ref_Digest ref) (Stat_opt opts)
        (logcall (Call_Debug ''(*linkedBlobStore).Create'') w))) =
        calls (logcall (Call_Debug ''(*linkedBlobStore).Create'') w) @ cs \<and>
        filter session_call cs = []"
    ..
  then have "calls w1 = calls w @ Call_Debug ''(*linkedBlobStore).Create'' # cs \<and>
            filter session_call cs = []"
    unfolding m by (simp add: logcall_def)
  then show "\<exists>cs. calls w1 = calls w @ Call_Debug ''(*linkedBlobStore).Create'' # cs \<and>
            filter session_call cs = []"
    by (rule exI [of _ cs])
next
  fix ref
  show "apply_options [WithMountFrom ref] zero_CreateOptions =
      Inr \<lparr>ShouldMount = True, From = Some ref, Stat_opt = None\<rparr>"
    by (rule apply_options_WithMountFrom)
qed

text \<open>
  In the in-memory backend: a \<open>Create\<close> with \<open>WithMountFrom\<close> for the stored blob
  \<open>sha256:bb\<close> returns \<open>ErrBlobMounted\<close>; the only file written is the link, and the ids
  of the uuid source are untouched.
\<close>

theorem Create_mount_short_circuit_witness:
  "Create mem_env (mem_lbs False) [WithMountFrom \<lparr>ref_Name = ''other'', ref_Digest = ''sha256:bb''\<rparr>]
      (mem_world [] [(''sha256:bb'', ''hello'')])
     = (Inl (ErrBlobMounted \<lparr>ref_Name = ''other'', ref_Digest = ''sha256:bb''\<rparr>
               \<lparr>MediaType = ''application/octet-stream'', Digest = ''sha256:bb'', Size = 5\<rparr>),
        \<lparr>backend = \<lparr>mem_files = [(''repo/_layers/sha256:bb/link'', ''sha256:bb'')],
                     mem_blobs = [(''sha256:bb'', ''hello'')], mem_ids = [''id-1'', ''id-2''],
                     mem_clock = 1704070800, mem_ingested = []\<rparr>,
         calls = [Call_Debug ''(*linkedBlobStore).Create'',
                  Call_Repository \<lparr>ref_Name = ''other'', ref_Digest = ''sha256:bb''\<rparr>,
                  Call_source_Stat \<lparr>ref_Name = ''other'', ref_Digest = ''sha256:bb''\<rparr> ''sha256:bb'',
                  Call_link ''repo/_layers/sha256:bb/link'' ''sha256:bb'']\<rparr>)"
proof -
  let ?R = "\<lparr>ref_Name = ''other'', ref_Digest = ''sha256:bb''\<rparr>"
  let ?W = "mem_world [] [(''sha256:bb'', ''hello'')]"
  let ?d = "\<lparr>MediaType = ''application/octet-stream'', Digest = ''sha256:bb'', Size = 5\<rparr>"
  let ?W1 = "\<lparr>backend = \<lparr>mem_files = [(''repo/_layers/sha256:bb/link'', ''sha256:bb'')],
                     mem_blobs = [(''sha256:bb'', ''hello'')], mem_ids = [''id-1'', ''id-2''],
                     mem_clock = 1704070800, mem_ingested = []\<rparr>,
         calls = [Call_Debug ''(*linkedBlobStore).Create'',
                  Call_Repository ?R, Call_source_Stat ?R ''sha256:bb'',
                  Call_link ''repo/_layers/sha256:bb/link'' ''sha256:bb'']\<rparr>"
  let ?opts = "\<lparr>ShouldMount = True, From = Some ?R, Stat_opt = None\<rparr>"
  have m: "mount (mem_lbs False) ?R (ref_Digest ?R) (Stat_opt ?opts)
             (logcall (Call_Debug ''(*linkedBlobStore).Create'') ?W) = ((?d, None), ?W1)"
    by (simp add: mount_def linkBlob_def invoke_def logcall_def mem_defs)
  have h: "apply_options [WithMountFrom ?R] zero_CreateOptions = Inr ?opts \<and> ShouldMount ?opts \<and>
      From ?opts = Some ?R \<and>
      mount (mem_lbs False) ?R (ref_Digest ?R) (Stat_opt ?opts)
        (logcall (Call_Debug ''(*linkedBlobStore).Create'') ?W) = ((?d, None), ?W1)"
    using m by (simp add: WithMountFrom_def zero_CreateOptions_def)
  from Create_mount_short_circuit [where options = "[WithMountFrom ?R]" and lbs = "mem_lbs False"
      and w = ?W and env = mem_env, THEN conjunct1, THEN spec, THEN spec, THEN spec, THEN spec,
      THEN mp, OF h]
  show ?thesis by (rule conjunct1)
qed

subsection \<open>Enumerate\<close>

lemma ingested_of_append: "ingested_of (xs @ ys) = ingested_of xs @ ingested_of ys"
  by (induction xs rule: ingested_of.induct) simp_all

lemma resolvable_append: "resolvable rl st (xs @ ys) = resolvable rl st xs @ resolvable rl st ys"
  by (simp add: resolvable_def)

lemma Walk_visit_append:
  "Walk_visit f (xs @ ys) w =
     (case Walk_visit f xs w of
        (Some err, w1) \<Rightarrow> (Some err, w1)
      | (None, w1) \<Rightarrow> Walk_visit f ys w1)"
  by (induction xs arbitrary: w) (simp_all split: prod.splits option.splits)

lemma Enumerate_visit_other:
  fixes lbs :: "'s linkedBlobStore"
  shows "\<not> link_file fileInfo \<Longrightarrow> Enumerate_visit lbs ingestor fileInfo w = (None, w)"
  by (auto simp: Enumerate_visit_def link_file_def Let_def)

text \<open>
  One link file, visited in a backend state of the invariant \<open>I\<close> under which readlink,
  \<open>Stat\<close> and the ingestor answer as \<open>rl\<close>, \<open>st\<close> and \<open>ing\<close> say.
\<close>

lemma Enumerate_visit_link:
  fixes lbs :: "'s linkedBlobStore"
  assumes H1: "\<And>p s. I s \<Longrightarrow> fst (bs_readlink (blobStore lbs) p s) = rl p \<and>
                         I (snd (bs_readlink (blobStore lbs) p s))"
    and H2: "\<And>d s. I s \<Longrightarrow> fst (svc_Stat (blobAccessController lbs) d s) = st d \<and>
                         I (snd (svc_Stat (blobAccessController lbs) d s))"
    and H3: "\<And>d s. I s \<Longrightarrow> fst (ingestor d s) = ing d \<and> I (snd (ingestor d s))"
    and I0: "I (backend w)"
    and lf: "link_file fileInfo"
  shows "fst (Enumerate_visit lbs ingestor fileInfo w) = entry_error rl st ing fileInfo \<and>
         I (backend (snd (Enumerate_visit lbs ingestor fileInfo w))) \<and>
         ingested_of (calls (snd (Enumerate_visit lbs ingestor fileInfo w))) =
           ingested_of (calls w) @ resolved rl st fileInfo"
proof -
  obtain r1 s1 where rl1: "bs_readlink (blobStore lbs) (Path fileInfo) (backend w) = (r1, s1)"
    by (cases "bs_readlink (blobStore lbs) (Path fileInfo) (backend w)")
  from H1 [OF I0, of "Path fileInfo"] rl1 have r1: "rl (Path fileInfo) = r1" and I1: "I s1"
    by auto
  show ?thesis
  proof (cases r1)
    case (Inl err)
    with rl1 r1 I1 lf show ?thesis
      by (simp add: Enumerate_visit_def link_file_def Let_def invoke_def entry_error_def
            resolved_def ingested_of_append)
  next
    case (Inr dgst)
    obtain r2 s2 where st2: "svc_Stat (blobAccessController lbs) dgst s1 = (r2, s2)"
      by (cases "svc_Stat (blobAccessController lbs) dgst s1")
    from H2 [OF I1, of dgst] st2 have r2: "st dgst = r2" and I2: "I s2"
      by auto
    show ?thesis
    proof (cases r2)
      case (Inl err)
      with rl1 r1 Inr st2 r2 I2 lf show ?thesis
        by (simp add: Enumerate_visit_def link_file_def Let_def invoke_def Stat_def
              entry_error_def resolved_def ingested_of_append)
    next
      case (Inr desc)
      obtain r3 s3 where in3: "ingestor dgst s2 = (r3, s3)"
        by (cases "ingestor dgst s2")
      from H3 [OF I2, of dgst] in3 have r3: "ing dgst = r3" and I3: "I s3"
        by auto
      from rl1 r1 \<open>r1 = Inr dgst\<close> st2 r2 Inr in3 r3 I3 lf show ?thesis
        by (cases r3)
           (simp_all add: Enumerate_visit_def link_file_def Let_def invoke_def Stat_def
              entry_error_def resolved_def ingested_of_append)
    qed
  qed
qed

lemma Walk_all_fine:
  fixes lbs :: "'s linkedBlobStore"
  assumes H1: "\<And>p s. I s \<Longrightarrow> fst (bs_readlink (blobStore lbs) p s) = rl p \<and>
                         I (snd (bs_readlink (blobStore lbs) p s))"
    and H2: "\<And>d s. I s \<Longrightarrow> fst (svc_Stat (blobAccessController lbs) d s) = st d \<and>
                         I (snd (svc_Stat (blobAccessController lbs) d s))"
    and H3: "\<And>d s. I s \<Longrightarrow> fst (ingestor d s) = ing d \<and> I (snd (ingestor d s))"
  shows "I (backend w) \<Longrightarrow>
         (\<forall>fi \<in> set infos. link_file fi \<longrightarrow> entry_error rl st ing fi = None) \<Longrightarrow>
         fst (Walk_visit (Enumerate_visit lbs ingestor) infos w) = None \<and>
         I (backend (snd (Walk_visit (Enumerate_visit lbs ingestor) infos w))) \<and>
         ingested_of (calls (snd (Walk_visit (Enumerate_visit lbs ingestor) infos w))) =
           ingested_of (calls w) @ resolvable rl st infos"
proof (induction infos arbitrary: w)
  case Nil
  then show ?case by (simp add: resolvable_def)
next
  case (Cons fi rest)
  show ?case
  proof (cases "link_file fi")
    case False
    then have v: "Enumerate_visit lbs ingestor fi w = (None, w)"
      by (rule Enumerate_visit_other)
    from False have r: "resolved rl st fi = []"
      by (simp add: resolved_def)
    from Cons.IH [of w] Cons.prems have
      "fst (Walk_visit (Enumerate_visit lbs ingestor) rest w) = None \<and>
       I (backend (snd (Walk_visit (Enumerate_visit lbs ingestor) rest w))) \<and>
       ingested_of (calls (snd (Walk_visit (Enumerate_visit lbs ingestor) rest w))) =
         ingested_of (calls w) @ resolvable rl st rest"
      by simp
    then show ?thesis
      using v r by (simp add: resolvable_def)
  next
    case True
    obtain r w1 where v: "Enumerate_visit lbs ingestor fi w = (r, w1)"
      by (cases "Enumerate_visit lbs ingestor fi w")
    from Enumerate_visit_link [of I lbs rl st ingestor ing w fi, OF H1 H2 H3 Cons.prems(1) True] v
    have e: "r = entry_error rl st ing fi" and I1: "I (backend w1)"
      and g: "ingested_of (calls w1) = ingested_of (calls w) @ resolved rl st fi"
      by simp_all
    from Cons.prems(2) True e have rn: "r = None" by simp
    from Cons.IH [of w1] I1 Cons.prems(2) have
      "fst (Walk_visit (Enumerate_visit lbs ingestor) rest w1) = None \<and>
       I (backend (snd (Walk_visit (Enumerate_visit lbs ingestor) rest w1))) \<and>
       ingested_of (calls (snd (Walk_visit (Enumerate_visit lbs ingestor) rest w1))) =
         ingested_of (calls w1) @ resolvable rl st rest"
      by simp
    then show ?thesis
      using v rn g by (simp add: resolvable_def)
  qed
qed

lemma Walk_first_error:
  fixes lbs :: "'s linkedBlobStore"
  assumes H1: "\<And>p s. I s \<Longrightarrow> fst (bs_readlink (blobStore lbs) p s) = rl p \<and>
                         I (snd (bs_readlink (blobStore lbs) p s))"
    and H2: "\<And>d s. I s \<Longrightarrow> fst (svc_Stat (blobAccessController lbs) d s) = st d \<and>
                         I (snd (svc_Stat (blobAccessController lbs) d s))"
    and H3: "\<And>d s. I s \<Longrightarrow> fst (ingestor d s) = ing d \<and> I (snd (ingestor d s))"
    and I0: "I (backend w)"
    and pre: "\<forall>x \<in> set pre. link_file x \<longrightarrow> entry_error rl st ing x = None"
    and lf: "link_file fi"
    and err: "entry_error rl st ing fi = Some err"
  shows "fst (Walk_visit (Enumerate_visit lbs ingestor) (pre @ fi # post) w) = Some err \<and>
         ingested_of (calls (snd (Walk_visit (Enumerate_visit lbs ingestor) (pre @ fi # post) w))) =
           ingested_of (calls w) @ resolvable rl st (pre @ [fi])"
proof -
  obtain r0 w1 where p: "Walk_visit (Enumerate_visit lbs ingestor) pre w = (r0, w1)"
    by (cases "Walk_visit (Enumerate_visit lbs ingestor) pre w")
  from Walk_all_fine [of I lbs rl st ingestor ing w pre, OF H1 H2 H3 I0 pre] p
  have r0: "r0 = None" and I1: "I (backend w1)"
    and g1: "ingested_of (calls w1) = ingested_of (calls w) @ resolvable rl st pre"
    by simp_all
  obtain r w2 where v: "Enumerate_visit lbs ingestor fi w1 = (r, w2)"
    by (cases "Enumerate_visit lbs ingestor fi w1")
  from Enumerate_visit_link [of I lbs rl st ingestor ing w1 fi, OF H1 H2 H3 I1 lf] v err
  have r: "r = Some err"
    and g2: "ingested_of (calls w2) = ingested_of (calls w1) @ resolved rl st fi"
    by simp_all
  from p r0 v r g1 g2 show ?thesis
    by (simp add: Walk_visit_append resolvable_def)
qed

text \<open>
  One visit of the function literal, for any collaborators: its error, the backend it
  leaves and the digests it hands to the ingestor are those of \<open>entry_step\<close>.
\<close>

lemma Enumerate_visit_step:
  fixes lbs :: "'s linkedBlobStore"
  shows "fst (Enumerate_visit lbs ingestor fileInfo w) =
           fst (fst (entry_step lbs ingestor fileInfo (backend w))) \<and>
         backend (snd (Enumerate_visit lbs ingestor fileInfo w)) =
           snd (entry_step lbs ingestor fileInfo (backend w)) \<and>
         ingested_of (calls (snd (Enumerate_visit lbs ingestor fileInfo w))) =
           ingested_of (calls w) @ snd (fst (entry_step lbs ingestor fileInfo (backend w)))"
proof (cases "link_file fileInfo")
  case False
  then show ?thesis
    by (simp add: Enumerate_visit_other entry_step_def)
next
  case True
  obtain r1 s1 where rl1: "bs_readlink (blobStore lbs) (Path fileInfo) (backend w) = (r1, s1)"
    by (cases "bs_readlink (blobStore lbs) (Path fileInfo) (backend w)")
  show ?thesis
  proof (cases r1)
    case (Inl err)
    with rl1 True show ?thesis
      by (simp add: Enumerate_visit_def link_file_def Let_def invoke_def entry_step_def
            ingested_of_append)
  next
    case (Inr dgst)
    obtain r2 s2 where st2: "svc_Stat (blobAccessController lbs) dgst s1 = (r2, s2)"
      by (cases "svc_Stat (blobAccessController lbs) dgst s1")
    show ?thesis
    proof (cases r2)
      case (Inl err)
      with rl1 Inr st2 True show ?thesis
        by (simp add: Enumerate_visit_def link_file_def Let_def invoke_def Stat_def
              entry_step_def ingested_of_append)
    next
      case (Inr desc)
      obtain r3 s3 where in3: "ingestor dgst s2 = (r3, s3)"
        by (cases "ingestor dgst s2")
      from rl1 \<open>r1 = Inr dgst\<close> st2 Inr in3 True show ?thesis
        by (cases r3)
           (simp_all add: Enumerate_visit_def link_file_def Let_def invoke_def Stat_def
              entry_step_def ingested_of_append)
    qed
  qed
qed

lemma Walk_visit_run:
  fixes lbs :: "'s linkedBlobStore"
  shows "fst (Walk_visit (Enumerate_visit lbs ingestor) infos w) =
           fst (fst (entries_run lbs ingestor infos (backend w))) \<and>
         backend (snd (Walk_visit (Enumerate_visit lbs ingestor) infos w)) =
           snd (entries_run lbs ingestor infos (backend w)) \<and>
         ingested_of (calls (snd (Walk_visit (Enumerate_visit lbs ingestor) infos w))) =
           ingested_of (calls w) @ snd (fst (entries_run lbs ingestor infos (backend w)))"
proof (induction infos arbitrary: w)
  case Nil
  show ?case by simp
next
  case (Cons fi rest)
  obtain r w1 where v: "Enumerate_visit lbs ingestor fi w = (r, w1)"
    by (cases "Enumerate_visit lbs ingestor fi w")
  obtain e ds s1 where st: "entry_step lbs ingestor fi (backend w) = ((e, ds), s1)"
    by (cases "entry_step lbs ingestor fi (backend w)") auto
  from Enumerate_visit_step [of lbs ingestor fi w] v st
  have r: "r = e" and b: "backend w1 = s1"
    and g: "ingested_of (calls w1) = ingested_of (calls w) @ ds"
    by simp_all
  show ?case
  proof (cases e)
    case (Some err)
    with v st r b g show ?thesis by simp
  next
    case None
    obtain e2 ds2 s2 where run: "entries_run lbs ingestor rest s1 = ((e2, ds2), s2)"
      by (cases "entries_run lbs ingestor rest s1") auto
    from Cons.IH [of w1] b run g
    have "fst (Walk_visit (Enumerate_visit lbs ingestor) rest w1) = e2 \<and>
          backend (snd (Walk_visit (Enumerate_visit lbs ingestor) rest w1)) = s2 \<and>
          ingested_of (calls (snd (Walk_visit (Enumerate_visit lbs ingestor) rest w1))) =
            ingested_of (calls w) @ ds @ ds2"
      by simp
    with v st r None run show ?thesis by simp
  qed
qed

lemma entries_run_append:
  "entries_run lbs ingestor (xs @ ys) s =
     (case entries_run lbs ingestor xs s of
        ((Some err, ds), s1) \<Rightarrow> ((Some err, ds), s1)
      | ((None, ds), s1) \<Rightarrow>
          (case entries_run lbs ingestor ys s1 of
             ((r, ds1), s2) \<Rightarrow> ((r, ds @ ds1), s2)))"
proof (induction xs arbitrary: s)
  case Nil
  show ?case by (simp split: prod.splits)
next
  case (Cons x xs)
  obtain e ds s1 where st: "entry_step lbs ingestor x s = ((e, ds), s1)"
    by (cases "entry_step lbs ingestor x s") auto
  show ?case
  proof (cases e)
    case (Some err)
    with st show ?thesis by simp
  next
    case None
    with st show ?thesis
      by (simp add: Cons.IH [of s1] split: prod.splits option.splits)
  qed
qed

lemma entries_run_first_error:
  assumes "entries_run lbs ingestor pre s = ((None, ds), s1)"
    and "entry_step lbs ingestor fi s1 = ((Some err, ds1), s2)"
  shows "entries_run lbs ingestor (pre @ fi # post) s = ((Some err, ds @ ds1), s2)"
  using assms by (simp add: entries_run_append)

text \<open>
  After the visit that returns an error the walk does nothing: the world it returns is
  the world that visit left.
\<close>

lemma Walk_visit_stops:
  assumes "fst (Walk_visit f pre w) = None"
    and "fst (f fi (snd (Walk_visit f pre w))) = Some err"
  shows "Walk_visit f (pre @ fi # post) w = (Some err, snd (f fi (snd (Walk_visit f pre w))))"
proof -
  obtain w1 where p: "Walk_visit f pre w = (None, w1)"
    using assms(1) by (cases "Walk_visit f pre w") auto
  obtain w2 where v: "f fi w1 = (Some err, w2)"
    using assms(2) p by (cases "f fi w1") auto
  from p v show ?thesis
    by (simp add: Walk_visit_append)
qed

text \<open>
  When readlink and \<open>Stat\<close> only read, and no link file has an error: the backend after
  the run is what the ingestor, called on the resolvable digests in order, makes of it.
\<close>

lemma entries_run_readers:
  fixes lbs :: "'s linkedBlobStore"
  assumes P1: "\<And>p s. I s \<Longrightarrow> bs_readlink (blobStore lbs) p s = (rl p, s)"
    and P2: "\<And>d s. I s \<Longrightarrow> svc_Stat (blobAccessController lbs) d s = (st d, s)"
    and H3: "\<And>d s. I s \<Longrightarrow> fst (ingestor d s) = ing d \<and> I (snd (ingestor d s))"
  shows "I s \<Longrightarrow>
         (\<forall>fi \<in> set infos. link_file fi \<longrightarrow> entry_error rl st ing fi = None) \<Longrightarrow>
         entries_run lbs ingestor infos s =
           ((None, resolvable rl st infos),
            foldl (\<lambda>s d. snd (ingestor d s)) s (resolvable rl st infos)) \<and>
         I (foldl (\<lambda>s d. snd (ingestor d s)) s (resolvable rl st infos))"
proof (induction infos arbitrary: s)
  case Nil
  then show ?case by (simp add: resolvable_def)
next
  case (Cons fi rest)
  have step: "entry_step lbs ingestor fi s =
                ((None, resolved rl st fi), foldl (\<lambda>s d. snd (ingestor d s)) s (resolved rl st fi)) \<and>
              I (foldl (\<lambda>s d. snd (ingestor d s)) s (resolved rl st fi))"
  proof (cases "link_file fi")
    case False
    with Cons.prems(1) show ?thesis
      by (simp add: entry_step_def resolved_def)
  next
    case True
    with Cons.prems(2) have fine: "entry_error rl st ing fi = None" by simp
    show ?thesis
    proof (cases "rl (Path fi)")
      case (Inl err)
      with fine show ?thesis by (simp add: entry_error_def)
    next
      case (Inr dgst)
      show ?thesis
      proof (cases "st dgst")
        case (Inl err)
        with fine Inr have "err = ErrBlobUnknown"
          by (simp add: entry_error_def split: if_splits)
        with True Inr Inl Cons.prems(1) show ?thesis
          by (simp add: entry_step_def resolved_def P1 P2)
      next
        case st: (Inr desc)
        with fine Inr have i: "ing dgst = None"
          by (simp add: entry_error_def)
        obtain r3 s3 where in3: "ingestor dgst s = (r3, s3)"
          by (cases "ingestor dgst s")
        from H3 [OF Cons.prems(1), of dgst] in3 i have "r3 = None" and "I s3"
          by auto
        with True Inr st Cons.prems(1) in3 show ?thesis
          by (simp add: entry_step_def resolved_def P1 P2)
      qed
    qed
  qed
  let ?s1 = "foldl (\<lambda>s d. snd (ingestor d s)) s (resolved rl st fi)"
  from step have I1: "I ?s1" by simp
  from Cons.prems(2) have rest: "\<forall>x \<in> set rest. link_file x \<longrightarrow> entry_error rl st ing x = None"
    by simp
  from Cons.IH [OF I1 rest] step show ?case
    by (simp add: resolvable_def)
qed

text \<open>
  Claim C8. Let the link directory resolve and the driver list the entries \<open>infos\<close>.
  For any collaborators, also ones whose answers depend on the calls made before, the
  error \<open>Enumerate\<close> returns, the backend it leaves and the digests it hands to the
  ingestor are those of the run of the entries in order: each link file is read and its
  target checked with \<open>Stat\<close>, an unknown blob is skipped, a known target is ingested.
  The first entry with an error (a readlink error, a \<open>Stat\<close> error other than the unknown
  blob, an ingestor error) ends the enumeration: that error is returned, and the world
  returned is the world the visit of that entry left, whatever entries follow.
  For a repository described by what readlink, \<open>Stat\<close> and the ingestor answer (\<open>rl\<close>,
  \<open>st\<close>, \<open>ing\<close>, in every backend state of an invariant \<open>I\<close> that they keep): when no link
  file has an error, \<open>Enumerate\<close> returns no error and the digests handed to the ingestor
  are exactly, in order, the targets of the links that \<open>Stat\<close> knows, the stale links
  being skipped; when readlink and \<open>Stat\<close> only read, the backend left is what the
  ingestor, called on exactly these digests, makes of the backend; and the first link
  file with an error, after entries without one, gives that error with nothing ingested
  after that entry.
\<close>

theorem Enumerate_skips_stale_stops_at_error:
  fixes lbs :: "'s linkedBlobStore"
  assumes root: "pathFor env (linkDirectoryPathSpec lbs) = Inr rootPath"
    and list: "driver_List (blobStore lbs) rootPath (backend w) = (Inr infos, s0)"
  shows
  "fst (Enumerate env lbs ingestor w) = fst (fst (entries_run lbs ingestor infos s0)) \<and>
   backend (snd (Enumerate env lbs ingestor w)) = snd (entries_run lbs ingestor infos s0) \<and>
   ingested_of (calls (snd (Enumerate env lbs ingestor w))) =
     ingested_of (calls w) @ snd (fst (entries_run lbs ingestor infos s0)) \<and>
   (\<forall>pre fi post err ds ds1 s1 s2.
      infos = pre @ fi # post \<and>
      entries_run lbs ingestor pre s0 = ((None, ds), s1) \<and>
      entry_step lbs ingestor fi s1 = ((Some err, ds1), s2) \<longrightarrow>
      fst (Enumerate env lbs ingestor w) = Some err \<and>
      backend (snd (Enumerate env lbs ingestor w)) = s2 \<and>
      ingested_of (calls (snd (Enumerate env lbs ingestor w))) = ingested_of (calls w) @ ds @ ds1 \<and>
      snd (Enumerate env lbs ingestor w) =
        snd (Enumerate_visit lbs ingestor fi
               (snd (Walk_visit (Enumerate_visit lbs ingestor) pre
                       \<lparr>backend = s0, calls = calls w @ [Call_Walk rootPath]\<rparr>)))) \<and>
   (I s0 \<and>
    (\<forall>p s. I s \<longrightarrow> fst (bs_readlink (blobStore lbs) p s) = rl p \<and>
                     I (snd (bs_readlink (blobStore lbs) p s))) \<and>
    (\<forall>d s. I s \<longrightarrow> fst (svc_Stat (blobAccessController lbs) d s) = st d \<and>
                     I (snd (svc_Stat (blobAccessController lbs) d s))) \<and>
    (\<forall>d s. I s \<longrightarrow> fst (ingestor d s) = ing d \<and> I (snd (ingestor d s))) \<longrightarrow>
    ((\<forall>fi \<in> set infos. link_file fi \<longrightarrow> entry_error rl st ing fi = None) \<longrightarrow>
       fst (Enumerate env lbs ingestor w) = None \<and>
       ingested_of (calls (snd (Enumerate env lbs ingestor w))) =
         ingested_of (calls w) @ resolvable rl st infos \<and>
       I (backend (snd (Enumerate env lbs ingestor w)))) \<and>
    (\<forall>pre fi post err.
       infos = pre @ fi # post \<and>
       (\<forall>x \<in> set pre. link_file x \<longrightarrow> entry_error rl st ing x = None) \<and>
       link_file fi \<and> entry_error rl st ing fi = Some err \<longrightarrow>
       fst (Enumerate env lbs ingestor w) = Some err \<and>
       ingested_of (calls (snd (Enumerate env lbs ingestor w))) =
         ingested_of (calls w) @ resolvable rl st (pre @ [fi]))) \<and>
   (I s0 \<and>
    (\<forall>p s. I s \<longrightarrow> bs_readlink (blobStore lbs) p s = (rl p, s)) \<and>
    (\<forall>d s. I s \<longrightarrow> svc_Stat (blobAccessController lbs) d s = (st d, s)) \<and>
    (\<forall>d s. I s \<longrightarrow> fst (ingestor d s) = ing d \<and> I (snd (ingestor d s))) \<and>
    (\<forall>fi \<in> set infos. link_file fi \<longrightarrow> entry_error rl st ing fi = None) \<longrightarrow>
    fst (Enumerate env lbs ingestor w) = None \<and>
    ingested_of (calls (snd (Enumerate env lbs ingestor w))) =
      ingested_of (calls w) @ resolvable rl st infos \<and>
    backend (snd (Enumerate env lbs ingestor w)) =
      foldl (\<lambda>s d. snd (ingestor d s)) s0 (resolvable rl st infos))"
proof -
  let ?w0 = "\<lparr>backend = s0, calls = calls w @ [Call_Walk rootPath]\<rparr>"
  let ?f = "Enumerate_visit lbs ingestor"
  have E: "Enumerate env lbs ingestor w = Walk_visit ?f infos ?w0"
    using root list by (simp add: Enumerate_def driver_Walk_def invoke_def)
  have c0: "ingested_of (calls ?w0) = ingested_of (calls w)"
    by (simp add: ingested_of_append)
  have b0: "backend ?w0 = s0" by simp
  note run = Walk_visit_run [of lbs ingestor infos ?w0, unfolded b0 c0, folded E]
  have G1: "fst (Enumerate env lbs ingestor w) = fst (fst (entries_run lbs ingestor infos s0))"
    by (rule run [THEN conjunct1])
  have G2: "backend (snd (Enumerate env lbs ingestor w)) = snd (entries_run lbs ingestor infos s0)"
    by (rule run [THEN conjunct2, THEN conjunct1])
  have G3: "ingested_of (calls (snd (Enumerate env lbs ingestor w))) =
     ingested_of (calls w) @ snd (fst (entries_run lbs ingestor infos s0))"
    by (rule run [THEN conjunct2, THEN conjunct2])
  have GA: "\<forall>pre fi post err ds ds1 s1 s2.
      infos = pre @ fi # post \<and>
      entries_run lbs ingestor pre s0 = ((None, ds), s1) \<and>
      entry_step lbs ingestor fi s1 = ((Some err, ds1), s2) \<longrightarrow>
      fst (Enumerate env lbs ingestor w) = Some err \<and>
      backend (snd (Enumerate env lbs ingestor w)) = s2 \<and>
      ingested_of (calls (snd (Enumerate env lbs ingestor w))) = ingested_of (calls w) @ ds @ ds1 \<and>
      snd (Enumerate env lbs ingestor w) =
        snd (Enumerate_visit lbs ingestor fi (snd (Walk_visit ?f pre ?w0)))"
  proof (intro allI impI)
    fix pre fi post err ds ds1 s1 s2
    assume a: "infos = pre @ fi # post \<and>
      entries_run lbs ingestor pre s0 = ((None, ds), s1) \<and>
      entry_step lbs ingestor fi s1 = ((Some err, ds1), s2)"
    then have i: "infos = pre @ fi # post"
      and p: "entries_run lbs ingestor pre s0 = ((None, ds), s1)"
      and e: "entry_step lbs ingestor fi s1 = ((Some err, ds1), s2)"
      by simp_all
    have r: "entries_run lbs ingestor infos s0 = ((Some err, ds @ ds1), s2)"
      unfolding i by (rule entries_run_first_error [OF p e])
    from Walk_visit_run [of lbs ingestor pre ?w0] p
    have p1: "fst (Walk_visit ?f pre ?w0) = None"
      and p2: "backend (snd (Walk_visit ?f pre ?w0)) = s1"
      by simp_all
    from Enumerate_visit_step [of lbs ingestor fi "snd (Walk_visit ?f pre ?w0)"] p2 e
    have v: "fst (?f fi (snd (Walk_visit ?f pre ?w0))) = Some err"
      by simp
    have w: "snd (Enumerate env lbs ingestor w) = snd (?f fi (snd (Walk_visit ?f pre ?w0)))"
      unfolding E i using Walk_visit_stops [of ?f pre ?w0 fi err post, OF p1 v] by simp
    from G1 G2 G3 r w
    show "fst (Enumerate env lbs ingestor w) = Some err \<and>
      backend (snd (Enumerate env lbs ingestor w)) = s2 \<and>
      ingested_of (calls (snd (Enumerate env lbs ingestor w))) = ingested_of (calls w) @ ds @ ds1 \<and>
      snd (Enumerate env lbs ingestor w) =
        snd (Enumerate_visit lbs ingestor fi (snd (Walk_visit ?f pre ?w0)))"
      by simp
  qed
  have S: "I s0 \<and>
    (\<forall>p s. I s \<longrightarrow> fst (bs_readlink (blobStore lbs) p s) = rl p \<and>
                     I (snd (bs_readlink (blobStore lbs) p s))) \<and>
    (\<forall>d s. I s \<longrightarrow> fst (svc_Stat (blobAccessController lbs) d s) = st d \<and>
                     I (snd (svc_Stat (blobAccessController lbs) d s))) \<and>
    (\<forall>d s. I s \<longrightarrow> fst (ingestor d s) = ing d \<and> I (snd (ingestor d s))) \<longrightarrow>
    ((\<forall>fi \<in> set infos. link_file fi \<longrightarrow> entry_error rl st ing fi = None) \<longrightarrow>
       fst (Enumerate env lbs ingestor w) = None \<and>
       ingested_of (calls (snd (Enumerate env lbs ingestor w))) =
         ingested_of (calls w) @ resolvable rl st infos \<and>
       I (backend (snd (Enumerate env lbs ingestor w)))) \<and>
    (\<forall>pre fi post err.
       infos = pre @ fi # post \<and>
       (\<forall>x \<in> set pre. link_file x \<longrightarrow> entry_error rl st ing x = None) \<and>
       link_file fi \<and> entry_error rl st ing fi = Some err \<longrightarrow>
       fst (Enumerate env lbs ingestor w) = Some err \<and>
       ingested_of (calls (snd (Enumerate env lbs ingestor w))) =
         ingested_of (calls w) @ resolvable rl st (pre @ [fi]))"
  proof (intro impI)
    assume h: "I s0 \<and>
      (\<forall>p s. I s \<longrightarrow> fst (bs_readlink (blobStore lbs) p s) = rl p \<and>
                     I (snd (bs_readlink (blobStore lbs) p s))) \<and>
      (\<forall>d s. I s \<longrightarrow> fst (svc_Stat (blobAccessController lbs) d s) = st d \<and>
                     I (snd (svc_Stat (blobAccessController lbs) d s))) \<and>
      (\<forall>d s. I s \<longrightarrow> fst (ingestor d s) = ing d \<and> I (snd (ingestor d s)))"
    then have I0': "I (backend ?w0)" by simp
    have H1: "\<And>p s. I s \<Longrightarrow> fst (bs_readlink (blobStore lbs) p s) = rl p \<and>
                         I (snd (bs_readlink (blobStore lbs) p s))"
      using h by simp
    have H2: "\<And>d s. I s \<Longrightarrow> fst (svc_Stat (blobAccessController lbs) d s) = st d \<and>
                         I (snd (svc_Stat (blobAccessController lbs) d s))"
      using h by simp
    have H3: "\<And>d s. I s \<Longrightarrow> fst (ingestor d s) = ing d \<and> I (snd (ingestor d s))"
      using h by simp
    show "((\<forall>fi \<in> set infos. link_file fi \<longrightarrow> entry_error rl st ing fi = None) \<longrightarrow>
       fst (Enumerate env lbs ingestor w) = None \<and>
       ingested_of (calls (snd (Enumerate env lbs ingestor w))) =
         ingested_of (calls w) @ resolvable rl st infos \<and>
       I (backend (snd (Enumerate env lbs ingestor w)))) \<and>
      (\<forall>pre fi post err.
       infos = pre @ fi # post \<and>
       (\<forall>x \<in> set pre. link_file x \<longrightarrow> entry_error rl st ing x = None) \<and>
       link_file fi \<and> entry_error rl st ing fi = Some err \<longrightarrow>
       fst (Enumerate env lbs ingestor w) = Some err \<and>
       ingested_of (calls (snd (Enumerate env lbs ingestor w))) =
         ingested_of (calls w) @ resolvable rl st (pre @ [fi]))"
    proof (intro conjI allI impI)
      assume fine: "\<forall>fi \<in> set infos. link_file fi \<longrightarrow> entry_error rl st ing fi = None"
      from Walk_all_fine [of I lbs rl st ingestor ing ?w0 infos, OF H1 H2 H3 I0' fine]
      show "fst (Enumerate env lbs ingestor w) = None"
        and "ingested_of (calls (snd (Enumerate env lbs ingestor w))) =
          ingested_of (calls w) @ resolvable rl st infos"
        and "I (backend (snd (Enumerate env lbs ingestor w)))"
        unfolding E c0 by simp_all
    next
      fix pre fi post err
      assume a: "infos = pre @ fi # post \<and>
        (\<forall>x \<in> set pre. link_file x \<longrightarrow> entry_error rl st ing x = None) \<and>
        link_file fi \<and> entry_error rl st ing fi = Some err"
      then have i: "infos = pre @ fi # post"
        and p: "\<forall>x \<in> set pre. link_file x \<longrightarrow> entry_error rl st ing x = None"
        and lf: "link_file fi" and e: "entry_error rl st ing fi = Some err"
        by simp_all
      from Walk_first_error [of I lbs rl st ingestor ing ?w0 pre fi err post,
          OF H1 H2 H3 I0' p lf e]
      show "fst (Enumerate env lbs ingestor w) = Some err"
        and "ingested_of (calls (snd (Enumerate env lbs ingestor w))) =
          ingested_of (calls w) @ resolvable rl st (pre @ [fi])"
        unfolding E i c0 by simp_all
    qed
  qed
  have S2: "I s0 \<and>
    (\<forall>p s. I s \<longrightarrow> bs_readlink (blobStore lbs) p s = (rl p, s)) \<and>
    (\<forall>d s. I s \<longrightarrow> svc_Stat (blobAccessController lbs) d s = (st d, s)) \<and>
    (\<forall>d s. I s \<longrightarrow> fst (ingestor d s) = ing d \<and> I (snd (ingestor d s))) \<and>
    (\<forall>fi \<in> set infos. link_file fi \<longrightarrow> entry_error rl st ing fi = None) \<longrightarrow>
    fst (Enumerate env lbs ingestor w) = None \<and>
    ingested_of (calls (snd (Enumerate env lbs ingestor w))) =
      ingested_of (calls w) @ resolvable rl st infos \<and>
    backend (snd (Enumerate env lbs ingestor w)) =
      foldl (\<lambda>s d. snd (ingestor d s)) s0 (resolvable rl st infos)"
  proof (intro impI)
    assume h: "I s0 \<and>
      (\<forall>p s. I s \<longrightarrow> bs_readlink (blobStore lbs) p s = (rl p, s)) \<and>
      (\<forall>d s. I s \<longrightarrow> svc_Stat (blobAccessController lbs) d s = (st d, s)) \<and>
      (\<forall>d s. I s \<longrightarrow> fst (ingestor d s) = ing d \<and> I (snd (ingestor d s))) \<and>
      (\<forall>fi \<in> set infos. link_file fi \<longrightarrow> entry_error rl st ing fi = None)"
    then have I0: "I s0"
      and fine: "\<forall>fi \<in> set infos. link_file fi \<longrightarrow> entry_error rl st ing fi = None"
      by simp_all
    have P1: "\<And>p s. I s \<Longrightarrow> bs_readlink (blobStore lbs) p s = (rl p, s)"
      using h by simp
    have P2: "\<And>d s. I s \<Longrightarrow> svc_Stat (blobAccessController lbs) d s = (st d, s)"
      using h by simp
    have H3: "\<And>d s. I s \<Longrightarrow> fst (ingestor d s) = ing d \<and> I (snd (ingestor d s))"
      using h by simp
    from entries_run_readers [of I lbs rl st ingestor ing s0 infos, OF P1 P2 H3 I0 fine]
    have "entries_run lbs ingestor infos s0 =
           ((None, resolvable rl st infos),
            foldl (\<lambda>s d. snd (ingestor d s)) s0 (resolvable rl st infos))"
      by (rule conjunct1)
    with G1 G2 G3
    show "fst (Enumerate env lbs ingestor w) = None \<and>
      ingested_of (calls (snd (Enumerate env lbs ingestor w))) =
        ingested_of (calls w) @ resolvable rl st infos \<and>
      backend (snd (Enumerate env lbs ingestor w)) =
        foldl (\<lambda>s d. snd (ingestor d s)) s0 (resolvable rl st infos)"
      by simp
  qed
  from G1 G2 G3 GA S S2 show ?thesis
    by (intro conjI)
qed

text \<open>
  In the in-memory backend. A repository with links to the stored blobs \<open>sha256:bb\<close> and
  \<open>sha256:cc\<close>, a link to the missing blob \<open>sha256:gone\<close> and a data file: \<open>Enumerate\<close>
  returns no error, the ingestor is called on \<open>sha256:bb\<close> and \<open>sha256:cc\<close>, and the
  backend holds what it collected. With a link of empty content between the two good
  links, \<open>Stat\<close> fails on it with another error than the unknown blob: \<open>Enumerate\<close>
  returns that error and \<open>sha256:bb\<close> alone was ingested. With three good links and an
  ingestor that refuses its second call: \<open>Enumerate\<close> returns the ingestor's error, the
  ingestor was called on \<open>sha256:bb\<close> and \<open>sha256:cc\<close> and never on \<open>sha256:dd\<close>, and the
  backend holds \<open>sha256:bb\<close> alone.
\<close>

theorem Enumerate_skips_stale_stops_at_error_witness:
  "fst (Enumerate mem_env (mem_lbs False) mem_ingestor
      (mem_world [(''repo/_layers/sha256:bb/link'', ''sha256:bb''),
                  (''repo/_layers/sha256:gone/link'', ''sha256:gone''),
                  (''repo/_layers/sha256:cc/data'', ''x''),
                  (''repo/_layers/sha256:cc/link'', ''sha256:cc'')]
                 [(''sha256:bb'', ''hello''), (''sha256:cc'', ''world'')])) = None \<and>
   ingested_of (calls (snd (Enumerate mem_env (mem_lbs False) mem_ingestor
      (mem_world [(''repo/_layers/sha256:bb/link'', ''sha256:bb''),
                  (''repo/_layers/sha256:gone/link'', ''sha256:gone''),
                  (''repo/_layers/sha256:cc/data'', ''x''),
                  (''repo/_layers/sha256:cc/link'', ''sha256:cc'')]
                 [(''sha256:bb'', ''hello''), (''sha256:cc'', ''world'')]))))
     = [''sha256:bb'', ''sha256:cc''] \<and>
   mem_ingested (backend (snd (Enumerate mem_env (mem_lbs False) mem_ingestor
      (mem_world [(''repo/_layers/sha256:bb/link'', ''sha256:bb''),
                  (''repo/_layers/sha256:gone/link'', ''sha256:gone''),
                  (''repo/_layers/sha256:cc/data'', ''x''),
                  (''repo/_layers/sha256:cc/link'', ''sha256:cc'')]
                 [(''sha256:bb'', ''hello''), (''sha256:cc'', ''world'')]))))
     = [''sha256:bb'', ''sha256:cc''] \<and>
   fst (Enumerate mem_env (mem_lbs False) mem_ingestor
      (mem_world [(''repo/_layers/sha256:bb/link'', ''sha256:bb''),
                  (''repo/_layers/bad/link'', ''''),
                  (''repo/_layers/sha256:cc/link'', ''sha256:cc'')]
                 [(''sha256:bb'', ''hello''), (''sha256:cc'', ''world'')]))
     = Some (OtherError ''invalid digest'') \<and>
   ingested_of (calls (snd (Enumerate mem_env (mem_lbs False) mem_ingestor
      (mem_world [(''repo/_layers/sha256:bb/link'', ''sha256:bb''),
                  (''repo/_layers/bad/link'', ''''),
                  (''repo/_layers/sha256:cc/link'', ''sha256:cc'')]
                 [(''sha256:bb'', ''hello''), (''sha256:cc'', ''world'')]))))
     = [''sha256:bb''] \<and>
   mem_ingested (backend (snd (Enumerate mem_env (mem_lbs False) mem_ingestor
      (mem_world [(''repo/_layers/sha256:bb/link'', ''sha256:bb''),
                  (''repo/_layers/bad/link'', ''''),
                  (''repo/_layers/sha256:cc/link'', ''sha256:cc'')]
                 [(''sha256:bb'', ''hello''), (''sha256:cc'', ''world'')]))))
     = [''sha256:bb''] \<and>
   fst (Enumerate mem_env (mem_lbs False) mem_ingestor_once
      (mem_world [(''repo/_layers/sha256:bb/link'', ''sha256:bb''),
                  (''repo/_layers/sha256:cc/link'', ''sha256:cc''),
                  (''repo/_layers/sha256:dd/link'', ''sha256:dd'')]
                 [(''sha256:bb'', ''hello''), (''sha256:cc'', ''world''), (''sha256:dd'', ''again'')]))
     = Some (OtherError ''ingestor full'') \<and>
   ingested_of (calls (snd (Enumerate mem_env (mem_lbs False) mem_ingestor_once
      (mem_world [(''repo/_layers/sha256:bb/link'', ''sha256:bb''),
                  (''repo/_layers/sha256:cc/link'', ''sha256:cc''),
                  (''repo/_layers/sha256:dd/link'', ''sha256:dd'')]
                 [(''sha256:bb'', ''hello''), (''sha256:cc'', ''world''), (''sha256:dd'', ''again'')]))))
     = [''sha256:bb'', ''sha256:cc''] \<and>
   mem_ingested (backend (snd (Enumerate mem_env (mem_lbs False) mem_ingestor_once
      (mem_world [(''repo/_layers/sha256:bb/link'', ''sha256:bb''),
                  (''repo/_layers/sha256:cc/link'', ''sha256:cc''),
                  (''repo/_layers/sha256:dd/link'', ''sha256:dd'')]
                 [(''sha256:bb'', ''hello''), (''sha256:cc'', ''world''), (''sha256:dd'', ''again'')]))))
     = [''sha256:bb'']"
proof -
  let ?B = "[(''sha256:bb'', ''hello''), (''sha256:cc'', ''world'')]"
  let ?ing = "\<lambda>d::digest. None :: error option"
  have root: "pathFor mem_env (linkDirectoryPathSpec (mem_lbs False)) = Inr ''repo/_layers''"
    by (simp add: mem_defs)
  have first: "fst (Enumerate mem_env (mem_lbs False) mem_ingestor
      (mem_world [(''repo/_layers/sha256:bb/link'', ''sha256:bb''),
                  (''repo/_layers/sha256:gone/link'', ''sha256:gone''),
                  (''repo/_layers/sha256:cc/data'', ''x''),
                  (''repo/_layers/sha256:cc/link'', ''sha256:cc'')] ?B)) = None \<and>
   ingested_of (calls (snd (Enumerate mem_env (mem_lbs False) mem_ingestor
      (mem_world [(''repo/_layers/sha256:bb/link'', ''sha256:bb''),
                  (''repo/_layers/sha256:gone/link'', ''sha256:gone''),
                  (''repo/_layers/sha256:cc/data'', ''x''),
                  (''repo/_layers/sha256:cc/link'', ''sha256:cc'')] ?B))))
     = [''sha256:bb'', ''sha256:cc''] \<and>
   mem_ingested (backend (snd (Enumerate mem_env (mem_lbs False) mem_ingestor
      (mem_world [(''repo/_layers/sha256:bb/link'', ''sha256:bb''),
                  (''repo/_layers/sha256:gone/link'', ''sha256:gone''),
                  (''repo/_layers/sha256:cc/data'', ''x''),
                  (''repo/_layers/sha256:cc/link'', ''sha256:cc'')] ?B))))
     = [''sha256:bb'', ''sha256:cc'']"
  proof -
    let ?F = "[(''repo/_layers/sha256:bb/link'', ''sha256:bb''),
                  (''repo/_layers/sha256:gone/link'', ''sha256:gone''),
                  (''repo/_layers/sha256:cc/data'', ''x''),
                  (''repo/_layers/sha256:cc/link'', ''sha256:cc'')]"
    let ?W = "mem_world ?F ?B"
    let ?I = "\<lambda>s. mem_files s = ?F \<and> mem_blobs s = ?B"
    let ?rl = "\<lambda>p. fst (mem_getContent p (backend ?W))"
    let ?st = "\<lambda>d. fst (svc_Stat (blobAccessController (mem_lbs False)) d (backend ?W))"
    let ?infos = "map (\<lambda>(p, c). \<lparr>Path = p, IsDir = False\<rparr>) ?F"
    have list: "driver_List (blobStore (mem_lbs False)) ''repo/_layers'' (backend ?W)
                  = (Inr ?infos, backend ?W)"
      by (simp add: mem_defs)
    have I0: "?I (backend ?W)"
      by (simp add: mem_defs)
    have P1: "\<forall>p s. ?I s \<longrightarrow> bs_readlink (blobStore (mem_lbs False)) p s = (?rl p, s)"
      by (simp add: mem_defs split: option.splits)
    have P2: "\<forall>d s. ?I s \<longrightarrow> svc_Stat (blobAccessController (mem_lbs False)) d s = (?st d, s)"
      by (simp add: mem_defs linkedBlobStatter_Stat_def invoke_def logcall_def Let_def
            split: option.splits sum.splits)
    have H3: "\<forall>d s. ?I s \<longrightarrow> fst (mem_ingestor d s) = ?ing d \<and> ?I (snd (mem_ingestor d s))"
      by (simp add: mem_defs)
    have fine: "\<forall>fi \<in> set ?infos. link_file fi \<longrightarrow> entry_error ?rl ?st ?ing fi = None"
      by (simp add: entry_error_def link_file_def path_Split_def mem_defs
            linkedBlobStatter_Stat_def invoke_def logcall_def)
    have res: "resolvable ?rl ?st ?infos = [''sha256:bb'', ''sha256:cc'']"
      by (simp add: resolvable_def resolved_def link_file_def path_Split_def mem_defs
            linkedBlobStatter_Stat_def invoke_def logcall_def)
    have c: "ingested_of (calls ?W) = []"
      by (simp add: mem_defs)
    have h: "?I (backend ?W) \<and>
      (\<forall>p s. ?I s \<longrightarrow> bs_readlink (blobStore (mem_lbs False)) p s = (?rl p, s)) \<and>
      (\<forall>d s. ?I s \<longrightarrow> svc_Stat (blobAccessController (mem_lbs False)) d s = (?st d, s)) \<and>
      (\<forall>d s. ?I s \<longrightarrow> fst (mem_ingestor d s) = ?ing d \<and> ?I (snd (mem_ingestor d s))) \<and>
      (\<forall>fi \<in> set ?infos. link_file fi \<longrightarrow> entry_error ?rl ?st ?ing fi = None)"
      by (rule conjI [OF I0 conjI [OF P1 conjI [OF P2 conjI [OF H3 fine]]]])
    have f: "mem_ingested (foldl (\<lambda>s d. snd (mem_ingestor d s)) (backend ?W)
               [''sha256:bb'', ''sha256:cc'']) = [''sha256:bb'', ''sha256:cc'']"
      by (simp add: mem_defs)
    from Enumerate_skips_stale_stops_at_error [where env = mem_env and lbs = "mem_lbs False"
        and rootPath = "''repo/_layers''" and w = ?W and infos = ?infos and ?s0.0 = "backend ?W"
        and ingestor = mem_ingestor and I = ?I and rl = ?rl and st = ?st and ing = ?ing,
        OF root list, THEN conjunct2, THEN conjunct2, THEN conjunct2, THEN conjunct2,
        THEN conjunct2, THEN mp, OF h]
    show ?thesis
      unfolding res c using f by simp
  qed
  have second: "fst (Enumerate mem_env (mem_lbs False) mem_ingestor
      (mem_world [(''repo/_layers/sha256:bb/link'', ''sha256:bb''),
                  (''repo/_layers/bad/link'', ''''),
                  (''repo/_layers/sha256:cc/link'', ''sha256:cc'')] ?B))
     = Some (OtherError ''invalid digest'') \<and>
   ingested_of (calls (snd (Enumerate mem_env (mem_lbs False) mem_ingestor
      (mem_world [(''repo/_layers/sha256:bb/link'', ''sha256:bb''),
                  (''repo/_layers/bad/link'', ''''),
                  (''repo/_layers/sha256:cc/link'', ''sha256:cc'')] ?B))))
     = [''sha256:bb''] \<and>
   mem_ingested (backend (snd (Enumerate mem_env (mem_lbs False) mem_ingestor
      (mem_world [(''repo/_layers/sha256:bb/link'', ''sha256:bb''),
                  (''repo/_layers/bad/link'', ''''),
                  (''repo/_layers/sha256:cc/link'', ''sha256:cc'')] ?B))))
     = [''sha256:bb'']"
  proof -
    let ?F = "[(''repo/_layers/sha256:bb/link'', ''sha256:bb''),
                  (''repo/_layers/bad/link'', ''''),
                  (''repo/_layers/sha256:cc/link'', ''sha256:cc'')]"
    let ?W = "mem_world ?F ?B"
    let ?infos = "map (\<lambda>(p, c). \<lparr>Path = p, IsDir = False\<rparr>) ?F"
    let ?pre = "[\<lparr>Path = ''repo/_layers/sha256:bb/link'', IsDir = False\<rparr>]"
    let ?fi = "\<lparr>Path = ''repo/_layers/bad/link'', IsDir = False\<rparr>"
    let ?post = "[\<lparr>Path = ''repo/_layers/sha256:cc/link'', IsDir = False\<rparr>]"
    let ?s1 = "\<lparr>mem_files = ?F, mem_blobs = ?B, mem_ids = [''id-1'', ''id-2''],
                mem_clock = 1704070800, mem_ingested = [''sha256:bb'']\<rparr>"
    have list: "driver_List (blobStore (mem_lbs False)) ''repo/_layers'' (backend ?W)
                  = (Inr ?infos, backend ?W)"
      by (simp add: mem_defs)
    have hyp: "?infos = ?pre @ ?fi # ?post \<and>
        entries_run (mem_lbs False) mem_ingestor ?pre (backend ?W) = ((None, [''sha256:bb'']), ?s1) \<and>
        entry_step (mem_lbs False) mem_ingestor ?fi ?s1
          = ((Some (OtherError ''invalid digest''), []), ?s1)"
      by (simp add: entry_step_def link_file_def path_Split_def mem_defs
            linkedBlobStatter_Stat_def invoke_def logcall_def)
    have c: "ingested_of (calls ?W) = []"
      by (simp add: mem_defs)
    note t = Enumerate_skips_stale_stops_at_error [where env = mem_env and lbs = "mem_lbs False"
        and rootPath = "''repo/_layers''" and w = ?W and infos = ?infos and ?s0.0 = "backend ?W"
        and ingestor = mem_ingestor,
        OF root list, THEN conjunct2, THEN conjunct2, THEN conjunct2, THEN conjunct1,
        THEN spec, THEN spec, THEN spec, THEN spec, THEN spec, THEN spec, THEN spec, THEN spec,
        THEN mp, OF hyp]
    from t [THEN conjunct1] t [THEN conjunct2, THEN conjunct1]
      t [THEN conjunct2, THEN conjunct2, THEN conjunct1]
    show ?thesis
      unfolding c by simp
  qed
  have third: "fst (Enumerate mem_env (mem_lbs False) mem_ingestor_once
      (mem_world [(''repo/_layers/sha256:bb/link'', ''sha256:bb''),
                  (''repo/_layers/sha256:cc/link'', ''sha256:cc''),
                  (''repo/_layers/sha256:dd/link'', ''sha256:dd'')]
                 [(''sha256:bb'', ''hello''), (''sha256:cc'', ''world''), (''sha256:dd'', ''again'')]))
     = Some (OtherError ''ingestor full'') \<and>
   ingested_of (calls (snd (Enumerate mem_env (mem_lbs False) mem_ingestor_once
      (mem_world [(''repo/_layers/sha256:bb/link'', ''sha256:bb''),
                  (''repo/_layers/sha256:cc/link'', ''sha256:cc''),
                  (''repo/_layers/sha256:dd/link'', ''sha256:dd'')]
                 [(''sha256:bb'', ''hello''), (''sha256:cc'', ''world''), (''sha256:dd'', ''again'')]))))
     = [''sha256:bb'', ''sha256:cc''] \<and>
   mem_ingested (backend (snd (Enumerate mem_env (mem_lbs False) mem_ingestor_once
      (mem_world [(''repo/_layers/sha256:bb/link'', ''sha256:bb''),
                  (''repo/_layers/sha256:cc/link'', ''sha256:cc''),
                  (''repo/_layers/sha256:dd/link'', ''sha256:dd'')]
                 [(''sha256:bb'', ''hello''), (''sha256:cc'', ''world''), (''sha256:dd'', ''again'')]))))
     = [''sha256:bb'']"
  proof -
    let ?F = "[(''repo/_layers/sha256:bb/link'', ''sha256:bb''),
                  (''repo/_layers/sha256:cc/link'', ''sha256:cc''),
                  (''repo/_layers/sha256:dd/link'', ''sha256:dd'')]"
    let ?B3 = "[(''sha256:bb'', ''hello''), (''sha256:cc'', ''world''), (''sha256:dd'', ''again'')]"
    let ?W = "mem_world ?F ?B3"
    let ?infos = "map (\<lambda>(p, c). \<lparr>Path = p, IsDir = False\<rparr>) ?F"
    let ?pre = "[\<lparr>Path = ''repo/_layers/sha256:bb/link'', IsDir = False\<rparr>]"
    let ?fi = "\<lparr>Path = ''repo/_layers/sha256:cc/link'', IsDir = False\<rparr>"
    let ?post = "[\<lparr>Path = ''repo/_layers/sha256:dd/link'', IsDir = False\<rparr>]"
    let ?s1 = "\<lparr>mem_files = ?F, mem_blobs = ?B3, mem_ids = [''id-1'', ''id-2''],
                mem_clock = 1704070800, mem_ingested = [''sha256:bb'']\<rparr>"
    have list: "driver_List (blobStore (mem_lbs False)) ''repo/_layers'' (backend ?W)
                  = (Inr ?infos, backend ?W)"
      by (simp add: mem_defs)
    have hyp: "?infos = ?pre @ ?fi # ?post \<and>
        entries_run (mem_lbs False) mem_ingestor_once ?pre (backend ?W)
          = ((None, [''sha256:bb'']), ?s1) \<and>
        entry_step (mem_lbs False) mem_ingestor_once ?fi ?s1
          = ((Some (OtherError ''ingestor full''), [''sha256:cc'']), ?s1)"
      by (simp add: entry_step_def link_file_def path_Split_def mem_defs
            linkedBlobStatter_Stat_def invoke_def logcall_def)
    have c: "ingested_of (calls ?W) = []"
      by (simp add: mem_defs)
    note t = Enumerate_skips_stale_stops_at_error [where env = mem_env and lbs = "mem_lbs False"
        and rootPath = "''repo/_layers''" and w = ?W and infos = ?infos and ?s0.0 = "backend ?W"
        and ingestor = mem_ingestor_once,
        OF root list, THEN conjunct2, THEN conjunct2, THEN conjunct2, THEN conjunct1,
        THEN spec, THEN spec, THEN spec, THEN spec, THEN spec, THEN spec, THEN spec, THEN spec,
        THEN mp, OF hyp]
    from t [THEN conjunct1] t [THEN conjunct2, THEN conjunct1]
      t [THEN conjunct2, THEN conjunct2, THEN conjunct1]
    show ?thesis
      unfolding c by simp
  qed
  from first second third show ?thesis by simp
qed

subsection \<open>Purging upload sessions\<close>

lemma sessionDir_uploads:
  "sessionDir p = Some dir \<Longrightarrow> uploadsPathComponent \<in> set dir"
  by (induction p arbitrary: dir rule: sessionDir.induct) (auto split: if_splits)

lemma set_map_filter_iff:
  "y \<in> set (List.map_filter f xs) \<longleftrightarrow> (\<exists>x \<in> set xs. f x = Some y)"
  by (induction xs) (auto split: option.splits)

lemma sessions_iff:
  "dir \<in> set (sessions fs) \<longleftrightarrow> (\<exists>p \<in> fst ` set fs. sessionDir p = Some dir)"
  by (auto simp: sessions_def set_map_filter_iff)

lemma sessions_uploads:
  "dir \<in> set (sessions fs) \<Longrightarrow> uploadsPathComponent \<in> set dir"
  by (auto simp: sessions_iff dest: sessionDir_uploads)

lemma under_set: "under dir p \<Longrightarrow> set dir \<subseteq> set p"
proof -
  assume "under dir p"
  then have "dir = take (length dir) p" by (simp add: under_def)
  then have "set dir = set (take (length dir) p)" by simp
  then show ?thesis using set_take_subset [of "length dir" p] by simp
qed

lemma gather_uploads:
  "set (fst (gather parse fs dirs)) =
     {(dir, t). dir \<in> set dirs \<and> readStartedAtFile parse fs dir = Some (Inr t)}"
  by (induction dirs) (auto split: prod.splits option.splits sum.splits)

lemma gather_errors:
  "set (snd (gather parse fs dirs)) =
     {(dir, err). dir \<in> set dirs \<and> readStartedAtFile parse fs dir = Some (Inl err)}"
  by (induction dirs) (auto split: prod.splits option.splits sum.splits)

text \<open>The loop of the sweep, in closed form: without and with deletion.\<close>

lemma purgeLoop_dry:
  "purgeLoop deleteError olderThan False uploads fs =
     (map fst (filter (\<lambda>(dir, t). t < olderThan) uploads), [], fs)"
  by (induction uploads arbitrary: fs) auto

lemma purgeLoop_delete:
  "purgeLoop deleteError olderThan True uploads fs =
     (map fst (filter (\<lambda>(dir, t). t < olderThan \<and> deleteError dir = None) uploads),
      List.map_filter (\<lambda>(dir, t).
         if t < olderThan then map_option (Pair dir) (deleteError dir) else None) uploads,
      filter (\<lambda>(p, content).
         \<not> (\<exists>(dir, t) \<in> set uploads. t < olderThan \<and> deleteError dir = None \<and> under dir p)) fs)"
proof (induction uploads arbitrary: fs)
  case Nil
  show ?case by simp
next
  case (Cons u uploads)
  obtain dir t where u: "u = (dir, t)" by (cases u)
  show ?case
    unfolding u
    by (cases "deleteError dir")
       (auto simp: Cons.IH driverDelete_def case_prod_unfold intro!: filter_cong)
qed

lemma PurgeUploads_deleted:
  "set (fst (PurgeUploads parse deleteError fs olderThan actuallyDelete)) =
     {dir \<in> set (sessions fs). \<exists>t. readStartedAtFile parse fs dir = Some (Inr t) \<and>
        t < olderThan \<and> (actuallyDelete \<longrightarrow> deleteError dir = None)}"
proof -
  obtain uploads errors where g: "gather parse fs (sessions fs) = (uploads, errors)"
    by (cases "gather parse fs (sessions fs)")
  from gather_uploads [of parse fs "sessions fs"] g
  have u: "set uploads =
     {(dir, t). dir \<in> set (sessions fs) \<and> readStartedAtFile parse fs dir = Some (Inr t)}"
    by simp
  show ?thesis
  proof (cases actuallyDelete)
    case True
    then show ?thesis
      using u by (force simp: PurgeUploads_def getOutstandingUploads_def g purgeLoop_delete)
  next
    case False
    then show ?thesis
      using u by (force simp: PurgeUploads_def getOutstandingUploads_def g purgeLoop_dry)
  qed
qed

lemma PurgeUploads_errors:
  assumes "(dir, err) \<in> set (fst (snd (PurgeUploads parse deleteError fs olderThan actuallyDelete)))"
  shows "readStartedAtFile parse fs dir \<noteq> None"
proof -
  obtain uploads errors where g: "gather parse fs (sessions fs) = (uploads, errors)"
    by (cases "gather parse fs (sessions fs)")
  from gather_uploads [of parse fs "sessions fs"] g
  have u: "set uploads =
     {(dir, t). dir \<in> set (sessions fs) \<and> readStartedAtFile parse fs dir = Some (Inr t)}"
    by simp
  from gather_errors [of parse fs "sessions fs"] g
  have e: "set errors =
     {(dir, err). dir \<in> set (sessions fs) \<and> readStartedAtFile parse fs dir = Some (Inl err)}"
    by simp
  show ?thesis
  proof (cases actuallyDelete)
    case False
    with assms have "(dir, err) \<in> set errors"
      by (simp add: PurgeUploads_def getOutstandingUploads_def g purgeLoop_dry)
    with e show ?thesis by auto
  next
    case True
    with assms have "(dir, err) \<in> set errors \<or>
        (dir, err) \<in> set (List.map_filter (\<lambda>(dir, t).
         if t < olderThan then map_option (Pair dir) (deleteError dir) else None) uploads)"
      by (simp add: PurgeUploads_def getOutstandingUploads_def g purgeLoop_delete)
    then show ?thesis
    proof
      assume "(dir, err) \<in> set errors"
      with e show ?thesis by auto
    next
      assume "(dir, err) \<in> set (List.map_filter (\<lambda>(dir, t).
         if t < olderThan then map_option (Pair dir) (deleteError dir) else None) uploads)"
      then obtain x where x: "x \<in> set uploads"
        "(case x of (dir, t) \<Rightarrow>
           if t < olderThan then map_option (Pair dir) (deleteError dir) else None) = Some (dir, err)"
        unfolding set_map_filter_iff by blast
      obtain d t where dt: "x = (d, t)" by (cases x)
      from x(2) dt have "d = dir" by (auto split: if_splits)
      with x(1) dt u show ?thesis by auto
    qed
  qed
qed

lemma PurgeUploads_files:
  "snd (snd (PurgeUploads parse deleteError fs olderThan actuallyDelete)) =
     (if actuallyDelete
      then filter (\<lambda>(p, content).
             \<not> (\<exists>dir \<in> set (fst (PurgeUploads parse deleteError fs olderThan actuallyDelete)).
                   under dir p)) fs
      else fs)"
proof -
  obtain uploads errors where g: "gather parse fs (sessions fs) = (uploads, errors)"
    by (cases "gather parse fs (sessions fs)")
  show ?thesis
  proof (cases actuallyDelete)
    case False
    then show ?thesis
      by (simp add: PurgeUploads_def getOutstandingUploads_def g purgeLoop_dry)
  next
    case True
    have d: "set (fst (PurgeUploads parse deleteError fs olderThan actuallyDelete)) =
        {dir. \<exists>t. (dir, t) \<in> set uploads \<and> t < olderThan \<and> deleteError dir = None}"
      using True by (force simp: PurgeUploads_def getOutstandingUploads_def g purgeLoop_delete)
    have f: "snd (snd (PurgeUploads parse deleteError fs olderThan actuallyDelete)) =
        filter (\<lambda>(p, content).
         \<not> (\<exists>(dir, t) \<in> set uploads. t < olderThan \<and> deleteError dir = None \<and> under dir p)) fs"
      using True by (simp add: PurgeUploads_def getOutstandingUploads_def g purgeLoop_delete)
    have "filter (\<lambda>(p, content).
         \<not> (\<exists>(dir, t) \<in> set uploads. t < olderThan \<and> deleteError dir = None \<and> under dir p)) fs
       = filter (\<lambda>(p, content).
             \<not> (\<exists>dir \<in> {dir. \<exists>t. (dir, t) \<in> set uploads \<and> t < olderThan \<and> deleteError dir = None}.
                   under dir p)) fs"
      by (rule filter_cong) (simp, blast)
    then show ?thesis
      unfolding f d using True by simp
  qed
qed

text \<open>
  Claim C1. The deleted set of a sweep with cutoff \<open>olderThan\<close> is the set of the sessions
  that have a startedat file whose recorded time is before the cutoff and, when the sweep
  really deletes, whose deletion the driver did not refuse; so with a driver that refuses
  no deletion it is exactly the set of the sessions with a recorded time before the
  cutoff. A session directory without a startedat file is never deleted and no error of
  the returned list belongs to it.
\<close>

theorem PurgeUploads_deletes_exactly_stale:
  "set (fst (PurgeUploads parse deleteError fs olderThan actuallyDelete)) =
     {dir \<in> set (sessions fs). \<exists>t. readStartedAtFile parse fs dir = Some (Inr t) \<and>
        t < olderThan \<and> (actuallyDelete \<longrightarrow> deleteError dir = None)} \<and>
   ((\<forall>dir. deleteError dir = None) \<longrightarrow>
      set (fst (PurgeUploads parse deleteError fs olderThan actuallyDelete)) =
        {dir \<in> set (sessions fs). \<exists>content t. map_of fs (dir @ [''startedat'']) = Some content \<and>
           parse content = Inr t \<and> t < olderThan}) \<and>
   (\<forall>dir. map_of fs (dir @ [''startedat'']) = None \<longrightarrow>
      dir \<notin> set (fst (PurgeUploads parse deleteError fs olderThan actuallyDelete)) \<and>
      dir \<notin> fst ` set (fst (snd (PurgeUploads parse deleteError fs olderThan actuallyDelete))))"
proof (intro conjI allI impI)
  show "set (fst (PurgeUploads parse deleteError fs olderThan actuallyDelete)) =
     {dir \<in> set (sessions fs). \<exists>t. readStartedAtFile parse fs dir = Some (Inr t) \<and>
        t < olderThan \<and> (actuallyDelete \<longrightarrow> deleteError dir = None)}"
    by (rule PurgeUploads_deleted)
next
  assume "\<forall>dir. deleteError dir = None"
  then show "set (fst (PurgeUploads parse deleteError fs olderThan actuallyDelete)) =
        {dir \<in> set (sessions fs). \<exists>content t. map_of fs (dir @ [''startedat'']) = Some content \<and>
           parse content = Inr t \<and> t < olderThan}"
    unfolding PurgeUploads_deleted
    by (auto simp: readStartedAtFile_def split: option.splits)
next
  fix dir
  assume n: "map_of fs (dir @ [''startedat'']) = None"
  then have r: "readStartedAtFile parse fs dir = None"
    by (simp add: readStartedAtFile_def)
  then show "dir \<notin> set (fst (PurgeUploads parse deleteError fs olderThan actuallyDelete))"
    unfolding PurgeUploads_deleted by simp
  show "dir \<notin> fst ` set (fst (snd (PurgeUploads parse deleteError fs olderThan actuallyDelete)))"
  proof
    assume "dir \<in> fst ` set (fst (snd (PurgeUploads parse deleteError fs olderThan actuallyDelete)))"
    then obtain err where
      "(dir, err) \<in> set (fst (snd (PurgeUploads parse deleteError fs olderThan actuallyDelete)))"
      by auto
    from PurgeUploads_errors [OF this] r show False by simp
  qed
qed

text \<open>
  A store as in the tests: an upload of \<open>library/test-repo\<close> started at 00:00, an upload
  of \<open>test-repo\<close> started at 01:00, an upload of \<open>test-repo\<close> whose startedat file is
  missing, and a file under a directory named \<open>_importants\<close>. The sweep with a cutoff
  between the two times and a driver that refuses nothing deletes the first session only
  and returns no error.
\<close>

theorem PurgeUploads_deletes_exactly_stale_witness:
  "PurgeUploads mem_parse (\<lambda>dir. None)
      [([''repositories'', ''library'', ''test-repo'', ''_uploads'', ''u1'', ''data''], ''''),
       ([''repositories'', ''library'', ''test-repo'', ''_uploads'', ''u1'', ''startedat''],
        ''2024-01-01T00:00:00Z''),
       ([''repositories'', ''test-repo'', ''_uploads'', ''u2'', ''data''], ''''),
       ([''repositories'', ''test-repo'', ''_uploads'', ''u2'', ''startedat''],
        ''2024-01-01T01:00:00Z''),
       ([''repositories'', ''test-repo'', ''_uploads'', ''u3'', ''data''], ''''),
       ([''repositories'', ''test-repo'', ''_importants'', ''u4'', ''data'', ''file''], '''')]
      1704070000 True
     = ([[''repositories'', ''library'', ''test-repo'', ''_uploads'', ''u1'']], [],
        [([''repositories'', ''test-repo'', ''_uploads'', ''u2'', ''data''], ''''),
         ([''repositories'', ''test-repo'', ''_uploads'', ''u2'', ''startedat''],
          ''2024-01-01T01:00:00Z''),
         ([''repositories'', ''test-repo'', ''_uploads'', ''u3'', ''data''], ''''),
         ([''repositories'', ''test-repo'', ''_importants'', ''u4'', ''data'', ''file''], '''')]) \<and>
   [''repositories'', ''test-repo'', ''_uploads'', ''u3''] \<notin> set (fst (PurgeUploads mem_parse (\<lambda>dir. None)
      [([''repositories'', ''library'', ''test-repo'', ''_uploads'', ''u1'', ''data''], ''''),
       ([''repositories'', ''library'', ''test-repo'', ''_uploads'', ''u1'', ''startedat''],
        ''2024-01-01T00:00:00Z''),
       ([''repositories'', ''test-repo'', ''_uploads'', ''u2'', ''data''], ''''),
       ([''repositories'', ''test-repo'', ''_uploads'', ''u2'', ''startedat''],
        ''2024-01-01T01:00:00Z''),
       ([''repositories'', ''test-repo'', ''_uploads'', ''u3'', ''data''], ''''),
       ([''repositories'', ''test-repo'', ''_importants'', ''u4'', ''data'', ''file''], '''')]
      1704070000 True))"
proof -
  let ?fs = "[([''repositories'', ''library'', ''test-repo'', ''_uploads'', ''u1'', ''data''], ''''),
       ([''repositories'', ''library'', ''test-repo'', ''_uploads'', ''u1'', ''startedat''],
        ''2024-01-01T00:00:00Z''),
       ([''repositories'', ''test-repo'', ''_uploads'', ''u2'', ''data''], ''''),
       ([''repositories'', ''test-repo'', ''_uploads'', ''u2'', ''startedat''],
        ''2024-01-01T01:00:00Z''),
       ([''repositories'', ''test-repo'', ''_uploads'', ''u3'', ''data''], ''''),
       ([''repositories'', ''test-repo'', ''_importants'', ''u4'', ''data'', ''file''], '''')]"
  have e: "PurgeUploads mem_parse (\<lambda>dir. None) ?fs 1704070000 True
     = ([[''repositories'', ''library'', ''test-repo'', ''_uploads'', ''u1'']], [],
        [([''repositories'', ''test-repo'', ''_uploads'', ''u2'', ''data''], ''''),
         ([''repositories'', ''test-repo'', ''_uploads'', ''u2'', ''startedat''],
          ''2024-01-01T01:00:00Z''),
         ([''repositories'', ''test-repo'', ''_uploads'', ''u3'', ''data''], ''''),
         ([''repositories'', ''test-repo'', ''_importants'', ''u4'', ''data'', ''file''], '''')])"
    by (simp add: PurgeUploads_def getOutstandingUploads_def sessions_def readStartedAtFile_def
          uploadsPathComponent_def driverDelete_def under_def mem_parse_def)
  have m: "map_of ?fs ([''repositories'', ''test-repo'', ''_uploads'', ''u3''] @ [''startedat'']) = None"
    by simp
  from PurgeUploads_deletes_exactly_stale [of mem_parse "\<lambda>dir. None" ?fs 1704070000 True,
      THEN conjunct2, THEN conjunct2, THEN spec, THEN mp, OF m]
  have "[''repositories'', ''test-repo'', ''_uploads'', ''u3'']
          \<notin> set (fst (PurgeUploads mem_parse (\<lambda>dir. None) ?fs 1704070000 True))"
    by (rule conjunct1)
  with e show ?thesis by (intro conjI)
qed

text \<open>
  Claim C2. Every path in the deleted list of a sweep contains the segment \<open>_uploads\<close>;
  every stored file the sweep removes has that segment in its path; and the stored files
  whose path lacks the segment are after the sweep what they were before, in content and
  in order, whatever else their path looks like.
\<close>

theorem PurgeUploads_only_uploads:
  "(\<forall>dir \<in> set (fst (PurgeUploads parse deleteError fs olderThan actuallyDelete)).
      uploadsPathComponent \<in> set dir) \<and>
   (\<forall>p content. (p, content) \<in> set fs \<and>
      (p, content) \<notin> set (snd (snd (PurgeUploads parse deleteError fs olderThan actuallyDelete)))
      \<longrightarrow> uploadsPathComponent \<in> set p) \<and>
   filter (\<lambda>(p, content). uploadsPathComponent \<notin> set p)
      (snd (snd (PurgeUploads parse deleteError fs olderThan actuallyDelete))) =
   filter (\<lambda>(p, content). uploadsPathComponent \<notin> set p) fs"
proof (intro conjI ballI allI impI)
  fix dir
  assume "dir \<in> set (fst (PurgeUploads parse deleteError fs olderThan actuallyDelete))"
  then have "dir \<in> set (sessions fs)"
    unfolding PurgeUploads_deleted by simp
  then show "uploadsPathComponent \<in> set dir"
    by (rule sessions_uploads)
next
  fix p content
  assume a: "(p, content) \<in> set fs \<and>
      (p, content) \<notin> set (snd (snd (PurgeUploads parse deleteError fs olderThan actuallyDelete)))"
  then have "\<exists>dir \<in> set (fst (PurgeUploads parse deleteError fs olderThan actuallyDelete)). under dir p"
    unfolding PurgeUploads_files [of parse deleteError fs olderThan actuallyDelete]
    by (cases actuallyDelete) auto
  then obtain dir where d: "dir \<in> set (fst (PurgeUploads parse deleteError fs olderThan actuallyDelete))"
    and u: "under dir p"
    by blast
  from d have "dir \<in> set (sessions fs)"
    unfolding PurgeUploads_deleted by simp
  then have "uploadsPathComponent \<in> set dir"
    by (rule sessions_uploads)
  with under_set [OF u] show "uploadsPathComponent \<in> set p"
    by blast
next
  have k: "\<And>p dir. dir \<in> set (fst (PurgeUploads parse deleteError fs olderThan actuallyDelete)) \<Longrightarrow>
            under dir p \<Longrightarrow> uploadsPathComponent \<in> set p"
  proof -
    fix p dir
    assume d: "dir \<in> set (fst (PurgeUploads parse deleteError fs olderThan actuallyDelete))"
      and u: "under dir p"
    from d have "dir \<in> set (sessions fs)"
      unfolding PurgeUploads_deleted by simp
    then have "uploadsPathComponent \<in> set dir"
      by (rule sessions_uploads)
    with under_set [OF u] show "uploadsPathComponent \<in> set p"
      by blast
  qed
  show "filter (\<lambda>(p, content). uploadsPathComponent \<notin> set p)
      (snd (snd (PurgeUploads parse deleteError fs olderThan actuallyDelete))) =
   filter (\<lambda>(p, content). uploadsPathComponent \<notin> set p) fs"
  proof (cases actuallyDelete)
    case False
    then show ?thesis
      unfolding PurgeUploads_files [of parse deleteError fs olderThan actuallyDelete] by simp
  next
    case True
    have "filter (\<lambda>(p, content). uploadsPathComponent \<notin> set p)
           (filter (\<lambda>(p, content).
             \<not> (\<exists>dir \<in> set (fst (PurgeUploads parse deleteError fs olderThan actuallyDelete)).
                   under dir p)) fs) =
          filter (\<lambda>(p, content). uploadsPathComponent \<notin> set p) fs"
      unfolding filter_filter
      by (rule filter_cong) (use k in auto)
    then show ?thesis
      unfolding PurgeUploads_files [of parse deleteError fs olderThan actuallyDelete]
      using True by simp
  qed
qed

text \<open>
  In the store of the tests, where the upload segment of one path was renamed to
  \<open>_importants\<close>: with a cutoff after every recorded time, the two sessions with a
  startedat file are deleted, and the renamed path and the session without startedat file
  stay.
\<close>

theorem PurgeUploads_only_uploads_witness:
  "PurgeUploads mem_parse (\<lambda>dir. None)
      [([''repositories'', ''test-repo'', ''_uploads'', ''u1'', ''data''], ''''),
       ([''repositories'', ''test-repo'', ''_uploads'', ''u1'', ''startedat''],
        ''2024-01-01T00:00:00Z''),
       ([''repositories'', ''test-repo'', ''_importants'', ''u4'', ''data'', ''file''], ''''),
       ([''repositories'', ''test-repo'', ''_importants'', ''u4'', ''startedat''],
        ''2024-01-01T00:00:00Z''),
       ([''repositories'', ''test-repo'', ''_uploads'', ''u2'', ''data''], ''''),
       ([''repositories'', ''test-repo'', ''_uploads'', ''u2'', ''startedat''],
        ''2024-01-01T01:00:00Z'')]
      1704080000 True
     = ([[''repositories'', ''test-repo'', ''_uploads'', ''u1''],
         [''repositories'', ''test-repo'', ''_uploads'', ''u2'']], [],
        [([''repositories'', ''test-repo'', ''_importants'', ''u4'', ''data'', ''file''], ''''),
         ([''repositories'', ''test-repo'', ''_importants'', ''u4'', ''startedat''],
          ''2024-01-01T00:00:00Z'')]) \<and>
   uploadsPathComponent \<in> set [''repositories'', ''test-repo'', ''_uploads'', ''u1'']"
proof -
  let ?fs = "[([''repositories'', ''test-repo'', ''_uploads'', ''u1'', ''data''], ''''),
       ([''repositories'', ''test-repo'', ''_uploads'', ''u1'', ''startedat''],
        ''2024-01-01T00:00:00Z''),
       ([''repositories'', ''test-repo'', ''_importants'', ''u4'', ''data'', ''file''], ''''),
       ([''repositories'', ''test-repo'', ''_importants'', ''u4'', ''startedat''],
        ''2024-01-01T00:00:00Z''),
       ([''repositories'', ''test-repo'', ''_uploads'', ''u2'', ''data''], ''''),
       ([''repositories'', ''test-repo'', ''_uploads'', ''u2'', ''startedat''],
        ''2024-01-01T01:00:00Z'')]"
  have e: "PurgeUploads mem_parse (\<lambda>dir. None) ?fs 1704080000 True
     = ([[''repositories'', ''test-repo'', ''_uploads'', ''u1''],
         [''repositories'', ''test-repo'', ''_uploads'', ''u2'']], [],
        [([''repositories'', ''test-repo'', ''_importants'', ''u4'', ''data'', ''file''], ''''),
         ([''repositories'', ''test-repo'', ''_importants'', ''u4'', ''startedat''],
          ''2024-01-01T00:00:00Z'')])"
    by (simp add: PurgeUploads_def getOutstandingUploads_def sessions_def readStartedAtFile_def
          uploadsPathComponent_def driverDelete_def under_def mem_parse_def)
  then have i: "[''repositories'', ''test-repo'', ''_uploads'', ''u1'']
      \<in> set (fst (PurgeUploads mem_parse (\<lambda>dir. None) ?fs 1704080000 True))"
    by simp
  from PurgeUploads_only_uploads [of mem_parse "\<lambda>dir. None" ?fs 1704080000 True,
      THEN conjunct1, THEN bspec, OF i]
  have "uploadsPathComponent \<in> set [''repositories'', ''test-repo'', ''_uploads'', ''u1'']" .
  with e show ?thesis by (intro conjI)
qed

end
